theory Spec2Isabelle
  imports Complex_Main
begin

section \<open>JavaScript strings and built-ins used by the bot\<close>

text \<open>
  A JavaScript string is a sequence of UTF-16 code units. A \<^typ>\<open>string\<close> of the
  model is a JavaScript string all of whose code units are below 256, the characters
  U+0000 to U+00FF (Basic Latin and Latin-1 Supplement): the character \<open>c\<close> is the code
  unit \<open>of_char c\<close>, so that \<^verbatim>\<open>CHR 0xA0\<close> is the no-break space U+00A0 and the length
  of the list is the \<^verbatim>\<open>length\<close> of the string. A string with a code unit from 256 on
  (the white space U+1680, U+2000 to U+200A, U+2028, U+2029, U+202F, U+205F, U+3000 and
  U+FEFF, the letters of other scripts, emoji) is not a value of the type: no
  definition and no theorem below speaks about such a text as input.

  Within the range, the white space of \<^verbatim>\<open>String.prototype.trim\<close>, of \<^verbatim>\<open>parseInt\<close>,
  of \<^verbatim>\<open>parseFloat\<close> and of the regular expression class \<^verbatim>\<open>\s\<close> is TAB, LF, VT, FF,
  CR, SPACE and the no-break space U+00A0; the line terminators that the regular
  expression \<^verbatim>\<open>.\<close> excludes are LF and CR; \<^verbatim>\<open>\d\<close> is \<^verbatim>\<open>0\<close> to \<^verbatim>\<open>9\<close>.
\<close>

definition isWhiteSpace :: "char \<Rightarrow> bool" where
  "isWhiteSpace c \<longleftrightarrow>
     c = CHR 0x09 \<or> c = CHR 0x0A \<or> c = CHR 0x0B \<or> c = CHR 0x0C \<or> c = CHR 0x0D \<or> c = CHR '' ''
     \<or> c = CHR 0xA0"

definition isLineTerminator :: "char \<Rightarrow> bool" where
  "isLineTerminator c \<longleftrightarrow> c = CHR 0x0A \<or> c = CHR 0x0D"

definition isDigit :: "char \<Rightarrow> bool" where
  "isDigit c \<longleftrightarrow> c \<in> set ''0123456789''"

text \<open>\<^verbatim>\<open>s.trim()\<close>: white space removed at both ends.\<close>

definition trim :: "string \<Rightarrow> string" where
  "trim s = rev (dropWhile isWhiteSpace (rev (dropWhile isWhiteSpace s)))"

text \<open>
  The capital letters of the range and their small letters, in the same order:
  \<^verbatim>\<open>A\<close> to \<^verbatim>\<open>Z\<close>, then U+00C0 to U+00DE without the multiplication sign U+00D7,
  each 32 below its small letter. Every other character of the range (the sharp s
  U+00DF and the micro sign U+00B5 among them) is its own lower case.
\<close>

definition upperLetters :: string where
  "upperLetters =
     ''ABCDEFGHIJKLMNOPQRSTUVWXYZ'' @
     [CHR 0xC0, CHR 0xC1, CHR 0xC2, CHR 0xC3, CHR 0xC4, CHR 0xC5, CHR 0xC6, CHR 0xC7,
      CHR 0xC8, CHR 0xC9, CHR 0xCA, CHR 0xCB, CHR 0xCC, CHR 0xCD, CHR 0xCE, CHR 0xCF,
      CHR 0xD0, CHR 0xD1, CHR 0xD2, CHR 0xD3, CHR 0xD4, CHR 0xD5, CHR 0xD6,
      CHR 0xD8, CHR 0xD9, CHR 0xDA, CHR 0xDB, CHR 0xDC, CHR 0xDD, CHR 0xDE]"

definition lowerLetters :: string where
  "lowerLetters =
     ''abcdefghijklmnopqrstuvwxyz'' @
     [CHR 0xE0, CHR 0xE1, CHR 0xE2, CHR 0xE3, CHR 0xE4, CHR 0xE5, CHR 0xE6, CHR 0xE7,
      CHR 0xE8, CHR 0xE9, CHR 0xEA, CHR 0xEB, CHR 0xEC, CHR 0xED, CHR 0xEE, CHR 0xEF,
      CHR 0xF0, CHR 0xF1, CHR 0xF2, CHR 0xF3, CHR 0xF4, CHR 0xF5, CHR 0xF6,
      CHR 0xF8, CHR 0xF9, CHR 0xFA, CHR 0xFB, CHR 0xFC, CHR 0xFD, CHR 0xFE]"

definition toLowerChar :: "char \<Rightarrow> char" where
  "toLowerChar c =
     (case map_of (zip upperLetters lowerLetters) c of
        Some l \<Rightarrow> l
      | None \<Rightarrow> c)"

text \<open>\<^verbatim>\<open>s.toLowerCase()\<close>.\<close>

definition toLowerCase :: "string \<Rightarrow> string" where
  "toLowerCase s = map toLowerChar s"

subsection \<open>Reply text\<close>

text \<open>
  The replies of the bot, the error texts of the server and the output of
  \<^verbatim>\<open>Intl.NumberFormat\<close> contain characters outside the range. A reply is a list of
  characters, each a character of the range (\<open>Chr\<close>) or a character from U+0100 on,
  given by its code point (\<open>Uni\<close>); \<open>str\<close> embeds a string of the range. The
  nine characters outside the range that the source writes in its string literals are
  named.
\<close>

datatype rchar = Chr char | Uni nat

type_synonym reply = "rchar list"

definition str :: "string \<Rightarrow> reply" where
  "str s = map Chr s"

definition crossMark :: rchar where
  "crossMark = Uni 0x274C"

definition checkMark :: rchar where
  "checkMark = Uni 0x2705"

definition fileFolder :: rchar where
  "fileFolder = Uni 0x1F4C1"

definition bank :: rchar where
  "bank = Uni 0x1F3E6"

definition moneyBag :: rchar where
  "moneyBag = Uni 0x1F4B0"

definition memo :: rchar where
  "memo = Uni 0x1F4DD"

definition books :: rchar where
  "books = Uni 0x1F4DA"

definition house :: rchar where
  "house = Uni 0x1F3E0"

definition bullet :: rchar where
  "bullet = Uni 0x2022"

subsection \<open>Numbers\<close>

text \<open>
  A JavaScript number is an IEEE 754 double: \<^verbatim>\<open>NaN\<close>, or a sign bit and a magnitude
  that is a non-negative rational or \<^verbatim>\<open>Infinity\<close>. \<open>Number True (Finite 0)\<close> is
  \<^verbatim>\<open>-0\<close>. The rounding of a non-negative decimal value to the magnitude of the
  nearest double (\<^verbatim>\<open>Infinity\<close> beyond the range) is an argument \<open>toDouble\<close> of
  everything that reads a number from text: nothing below depends on which values
  the rounding returns.
\<close>

datatype magnitude = Finite rat | Infinity

datatype number = NaN | Number bool magnitude

text \<open>\<^verbatim>\<open>Math.abs(x)\<close> clears the sign bit, \<^verbatim>\<open>-x\<close> flips it, \<^verbatim>\<open>x < 0\<close>.\<close>

fun Math_abs :: "number \<Rightarrow> number" where
  "Math_abs NaN = NaN"
| "Math_abs (Number s m) = Number False m"

fun negate :: "number \<Rightarrow> number" where
  "negate NaN = NaN"
| "negate (Number s m) = Number (\<not> s) m"

fun lessThanZero :: "number \<Rightarrow> bool" where
  "lessThanZero NaN = False"
| "lessThanZero (Number s m) = (s \<and> m \<noteq> Finite 0)"

text \<open>
  The value of a digit in radix 10 or 16, \<open>None\<close> for a character that is not a
  digit of that radix.
\<close>

definition digitValue :: "nat \<Rightarrow> char \<Rightarrow> nat option" where
  "digitValue radix c =
     (case map_of
        [(CHR ''0'', 0), (CHR ''1'', 1), (CHR ''2'', 2), (CHR ''3'', 3), (CHR ''4'', 4),
         (CHR ''5'', 5), (CHR ''6'', 6), (CHR ''7'', 7), (CHR ''8'', 8), (CHR ''9'', 9),
         (CHR ''a'', 10), (CHR ''b'', 11), (CHR ''c'', 12), (CHR ''d'', 13), (CHR ''e'', 14),
         (CHR ''f'', 15)] (toLowerChar c) of
        Some v \<Rightarrow> (if v < radix then Some v else None)
      | None \<Rightarrow> None)"

text \<open>The number a digit string denotes in the radix; the empty string denotes 0.\<close>

definition digitsValue :: "nat \<Rightarrow> string \<Rightarrow> nat" where
  "digitsValue radix ds = foldl (\<lambda>acc c. acc * radix + the (digitValue radix c)) 0 ds"

definition isRadixDigit :: "nat \<Rightarrow> char \<Rightarrow> bool" where
  "isRadixDigit radix c \<longleftrightarrow> digitValue radix c \<noteq> None"

text \<open>
  \<^verbatim>\<open>parseInt(s)\<close> with no radix argument: leading white space is skipped, one sign is
  read, a \<^verbatim>\<open>0x\<close> or \<^verbatim>\<open>0X\<close> prefix selects radix 16, then the longest run of digits
  is read and everything after it is ignored. \<open>None\<close> is \<^verbatim>\<open>NaN\<close> (no digit was
  read). The result is the integer that the digits denote. The number JavaScript
  returns is that integer rounded to a double; the two are equal below \<open>2^53\<close>, and
  the handlers only compare the result minus one with 0 and with the length of a
  list, a test that the rounding of an integer from \<open>2^53\<close> on does not change.
\<close>

definition parseInt :: "string \<Rightarrow> int option" where
  "parseInt s =
     (let s1 = dropWhile isWhiteSpace s;
          neg = (s1 \<noteq> [] \<and> hd s1 = CHR ''-'');
          s2 = (if s1 \<noteq> [] \<and> (hd s1 = CHR ''-'' \<or> hd s1 = CHR ''+'') then tl s1 else s1);
          hex = (take 2 s2 = ''0x'' \<or> take 2 s2 = ''0X'');
          radix = (if hex then 16 else 10);
          s3 = (if hex then drop 2 s2 else s2);
          z = takeWhile (isRadixDigit radix) s3
      in if z = [] then None
         else Some ((if neg then - 1 else 1) * int (digitsValue radix z)))"

section \<open>The rate limiter (rate-limiter.ts)\<close>

text \<open>
  \<^verbatim>\<open>userAttempts\<close> is the \<^verbatim>\<open>Map<string, number[]>\<close> of attempt timestamps,
  \<^verbatim>\<open>Date.now()\<close> is an argument of every operation that reads the clock.
  Timestamps and the two parameters are integers.
\<close>

record RateLimiter =
  userAttempts :: "string \<rightharpoonup> int list"
  maxAttempts :: int
  windowMs :: int

datatype error = RangeError

text \<open>
  The constructor stores its two arguments and starts the cleanup timer; it has no
  check and no \<^verbatim>\<open>throw\<close>, so the error branch of the result type is never taken.
\<close>

definition RateLimiter_new :: "int \<Rightarrow> int \<Rightarrow> error + RateLimiter" where
  "RateLimiter_new maxA windowM =
     Inr \<lparr>userAttempts = Map.empty, maxAttempts = maxA, windowMs = windowM\<rparr>"

definition attemptsOf :: "RateLimiter \<Rightarrow> string \<Rightarrow> int list" where
  "attemptsOf rl userId = (case userAttempts rl userId of None \<Rightarrow> [] | Some a \<Rightarrow> a)"

definition isAllowed :: "RateLimiter \<Rightarrow> string \<Rightarrow> int \<Rightarrow> bool \<times> RateLimiter" where
  "isAllowed rl userId now =
     (let attempts = attemptsOf rl userId;
          recentAttempts = filter (\<lambda>t. now - t < windowMs rl) attempts
      in if int (length recentAttempts) \<ge> maxAttempts rl then (False, rl)
         else (True, rl\<lparr>userAttempts := (userAttempts rl)(userId \<mapsto> recentAttempts @ [now])\<rparr>))"

definition getRemaining :: "RateLimiter \<Rightarrow> string \<Rightarrow> int \<Rightarrow> int" where
  "getRemaining rl userId now =
     (let recentAttempts = filter (\<lambda>t. now - t < windowMs rl) (attemptsOf rl userId)
      in max 0 (maxAttempts rl - int (length recentAttempts)))"

definition reset :: "RateLimiter \<Rightarrow> string \<Rightarrow> RateLimiter" where
  "reset rl userId = rl\<lparr>userAttempts := (userAttempts rl)(userId := None)\<rparr>"

definition resetAll :: "RateLimiter \<Rightarrow> RateLimiter" where
  "resetAll rl = rl\<lparr>userAttempts := Map.empty\<rparr>"

definition cleanup :: "RateLimiter \<Rightarrow> int \<Rightarrow> RateLimiter" where
  "cleanup rl now =
     rl\<lparr>userAttempts := (\<lambda>userId.
          case userAttempts rl userId of
            None \<Rightarrow> None
          | Some attempts \<Rightarrow>
              (let recentAttempts = filter (\<lambda>t. now - t < windowMs rl) attempts
               in if recentAttempts = [] then None else Some recentAttempts))\<rparr>"

text \<open>
  A call sequence on one limiter: each call carries the value \<^verbatim>\<open>Date.now()\<close> had
  when it ran. \<open>run\<close> executes the calls in order and keeps, beside the limiter,
  the log of the admitted attempts (identity and timestamp), which the code itself
  does not keep.
\<close>

datatype call = IsAllowed string int | Cleanup int

fun callTime :: "call \<Rightarrow> int" where
  "callTime (IsAllowed userId now) = now"
| "callTime (Cleanup now) = now"

fun step :: "RateLimiter \<times> (string \<times> int) list \<Rightarrow> call \<Rightarrow> RateLimiter \<times> (string \<times> int) list" where
  "step (rl, admitted) (IsAllowed userId now) =
     (let (ok, rl') = isAllowed rl userId now
      in (rl', if ok then admitted @ [(userId, now)] else admitted))"
| "step (rl, admitted) (Cleanup now) = (cleanup rl now, admitted)"

definition run :: "RateLimiter \<Rightarrow> call list \<Rightarrow> RateLimiter \<times> (string \<times> int) list" where
  "run rl calls = foldl step (rl, []) calls"

text \<open>
  The timestamps of the admitted attempts of one identity, in the order of the calls,
  and those of them that lie within the trailing window at \<open>now\<close>.
\<close>

definition admittedTimes :: "(string \<times> int) list \<Rightarrow> string \<Rightarrow> int list" where
  "admittedTimes admitted userId = map snd (filter (\<lambda>a. fst a = userId) admitted)"

definition admittedInWindow :: "(string \<times> int) list \<Rightarrow> string \<Rightarrow> int \<Rightarrow> int \<Rightarrow> int list" where
  "admittedInWindow admitted userId window now =
     filter (\<lambda>t. now - t < window) (admittedTimes admitted userId)"

text \<open>
  The invariant of a run: at every later instant the stored history of an identity
  and the log of its admitted attempts agree on what lies within the window, and
  the two parameters never change.
\<close>

definition agrees :: "RateLimiter \<Rightarrow> (string \<times> int) list \<Rightarrow> int \<Rightarrow> bool" where
  "agrees rl admitted T \<longleftrightarrow>
     (\<forall>userId now. T \<le> now \<longrightarrow>
        filter (\<lambda>t. now - t < windowMs rl) (attemptsOf rl userId) =
        admittedInWindow admitted userId (windowMs rl) now)"

text \<open>
  The log of a run is in the order of the clock: its timestamps are sorted and none is
  later than the last clock reading \<open>T\<close>.
\<close>

definition ordered :: "(string \<times> int) list \<Rightarrow> int \<Rightarrow> bool" where
  "ordered admitted T \<longleftrightarrow> sorted (map snd admitted) \<and> (\<forall>a \<in> set admitted. snd a \<le> T)"

section \<open>The data model (types.ts)\<close>

datatype ConversationState = IDLE | SELECT_TYPE | SELECT_ACCOUNT | ENTER_DETAILS | SELECT_CATEGORY

text \<open>The string literal type \<^verbatim>\<open>'expense' | 'income'\<close>.\<close>

datatype TransactionType = Expense | Income

record Category =
  cat_id :: string
  cat_name :: string
  classification :: string
  color :: "string option"
  icon :: "string option"

record Account =
  acc_id :: string
  acc_name :: string
  account_type :: string
  balance :: "string option"
  currency :: "string option"

text \<open>
  An optional field that is absent is \<open>None\<close>. Dates are milliseconds since the
  epoch.
\<close>

record UserSession =
  state :: ConversationState
  transactionType :: "TransactionType option"
  accountId :: "string option"
  amount :: "number option"
  name :: "string option"
  categories :: "Category list option"
  accounts :: "Account list option"
  createdAt :: int
  lastActivityAt :: int

record CreateTransactionParams =
  account_id :: "string option"
  date :: string
  tx_amount :: number
  tx_name :: "string option"
  category_id :: string
  nature :: "TransactionType option"

section \<open>The session manager (types.ts)\<close>

text \<open>
  \<^verbatim>\<open>SessionManager\<close> owns a private map of sessions. The cleanup timer started by
  \<^verbatim>\<open>startCleanupInterval\<close> calls \<^verbatim>\<open>clearExpiredSessions\<close> on that map.
\<close>

record SessionManager =
  sm_sessions :: "string \<rightharpoonup> UserSession"
  sessionTimeoutMs :: int
  cleanupInterval :: bool

definition SessionManager_new :: "int \<Rightarrow> SessionManager" where
  "SessionManager_new timeoutMs =
     \<lparr>sm_sessions = Map.empty, sessionTimeoutMs = timeoutMs, cleanupInterval = False\<rparr>"

text \<open>The default argument of the constructor: 30 minutes.\<close>

definition defaultSessionTimeoutMs :: int where
  "defaultSessionTimeoutMs = 30 * 60 * 1000"

definition startCleanupInterval :: "SessionManager \<Rightarrow> SessionManager" where
  "startCleanupInterval mgr = (if cleanupInterval mgr then mgr else mgr\<lparr>cleanupInterval := True\<rparr>)"

definition getOrCreateSession :: "SessionManager \<Rightarrow> string \<Rightarrow> int \<Rightarrow> UserSession \<times> SessionManager" where
  "getOrCreateSession mgr userId now =
     (case sm_sessions mgr userId of
        None \<Rightarrow>
          (let session = \<lparr>state = IDLE, transactionType = None, accountId = None, amount = None,
                 name = None, categories = None, accounts = None,
                 createdAt = now, lastActivityAt = now\<rparr>
           in (session, mgr\<lparr>sm_sessions := (sm_sessions mgr)(userId \<mapsto> session)\<rparr>))
      | Some session \<Rightarrow>
          (let session' = session\<lparr>lastActivityAt := now\<rparr>
           in (session', mgr\<lparr>sm_sessions := (sm_sessions mgr)(userId \<mapsto> session')\<rparr>)))"

definition clearExpiredSessions :: "SessionManager \<Rightarrow> int \<Rightarrow> SessionManager" where
  "clearExpiredSessions mgr now =
     mgr\<lparr>sm_sessions := (\<lambda>userId.
          case sm_sessions mgr userId of
            None \<Rightarrow> None
          | Some session \<Rightarrow>
              if now - lastActivityAt session > sessionTimeoutMs mgr then None else Some session)\<rparr>"

section \<open>The session store of the conversation engine (state.ts)\<close>

text \<open>
  The module-level \<^verbatim>\<open>sessions\<close> map of state.ts, passed in and returned. Every
  \<^verbatim>\<open>new Date()\<close> of one operation reads the same clock value \<open>now\<close>.
\<close>

type_synonym sessions = "string \<rightharpoonup> UserSession"

definition freshSession :: "int \<Rightarrow> UserSession" where
  "freshSession now =
     \<lparr>state = IDLE, transactionType = None, accountId = None, amount = None,
      name = None, categories = None, accounts = None,
      createdAt = now, lastActivityAt = now\<rparr>"

definition getSession :: "sessions \<Rightarrow> string \<Rightarrow> int \<Rightarrow> UserSession \<times> sessions" where
  "getSession sessions userId now =
     (case sessions userId of
        None \<Rightarrow> (freshSession now, sessions(userId \<mapsto> freshSession now))
      | Some session \<Rightarrow> (session, sessions))"

text \<open>
  \<^verbatim>\<open>updates\<close> is the \<^verbatim>\<open>Partial<UserSession>\<close> spread over the session: the function
  that sets the fields the caller gives.
\<close>

definition updateSession ::
  "sessions \<Rightarrow> string \<Rightarrow> (UserSession \<Rightarrow> UserSession) \<Rightarrow> int \<Rightarrow> UserSession \<times> sessions" where
  "updateSession sessions userId updates now =
     (let (session, sessions1) = getSession sessions userId now;
          updated = (updates session)\<lparr>lastActivityAt := now\<rparr>
      in (updated, sessions1(userId \<mapsto> updated)))"

definition resetSession :: "sessions \<Rightarrow> string \<Rightarrow> int \<Rightarrow> sessions" where
  "resetSession sessions userId now = sessions(userId \<mapsto> freshSession now)"

section \<open>List rendering (state.ts)\<close>

fun showNat :: "nat \<Rightarrow> string" where
  "showNat n =
     (if n < 10 then [''0123456789'' ! n]
      else showNat (n div 10) @ [''0123456789'' ! (n mod 10)])"

declare showNat.simps [simp del]

text \<open>The lines \<^verbatim>\<open>`${start + i + 1}. ${cat.name}\n`\<close> of one group, \<open>i\<close> from 0.\<close>

definition categoryLines :: "nat \<Rightarrow> Category list \<Rightarrow> string" where
  "categoryLines start cats =
     concat (map (\<lambda>(i, cat). showNat (start + i + 1) @ ''. '' @ cat_name cat @ ''\<newline>'')
                 (enumerate 0 cats))"

definition formatCategoriesList :: "Category list \<Rightarrow> reply" where
  \<open>formatCategoriesList cats =
     (let expenseCategories = filter (\<lambda>c. classification c = ''expense'') cats;
          incomeCategories = filter (\<lambda>c. classification c = ''income'') cats;
          message0 = fileFolder # str '' *Select a category:*\<newline>\<newline>'';
          message1 = (if length expenseCategories > 0
                      then message0 @ str (''*Expenses:*\<newline>'' @ categoryLines 0 expenseCategories)
                      else message0);
          message2 = (if length incomeCategories > 0
                      then message1 @ str (''\<newline>*Income:*\<newline>''
                             @ categoryLines (length expenseCategories) incomeCategories)
                      else message1)
      in message2 @ str ''\<newline>Reply with the number or type the category name.\<newline>\<newline>_Type "/back" to return to main menu._'')\<close>

definition formatAccountsList :: "Account list \<Rightarrow> reply" where
  \<open>formatAccountsList accs =
     (if length accs = 0
      then crossMark # str '' No accounts found. Please create an account in Sure.am first.''
      else bank # str ('' *Select an account:*\<newline>\<newline>''
           @ concat (map (\<lambda>(i, acc).
                 showNat (i + 1) @ ''. '' @ acc_name acc
                   @ (case balance acc of
                        None \<Rightarrow> []
                      | Some b \<Rightarrow> if b = [] then [] else '' ('' @ b @ '')'')
                   @ ''\<newline>'') (enumerate 0 accs))
           @ ''\<newline>Reply with the number.\<newline>\<newline>_Type "/back" to return to main menu._''))\<close>

section \<open>The transaction text parser (parser.ts)\<close>

record ParsedTransaction =
  pt_amount :: number
  pt_name :: string

text \<open>
  The five characters of the class \<^verbatim>\<open>[<>\"'`]\<close>, and
  \<^verbatim>\<open>s.replace(/[<>\"'`]/g, '')\<close>, which deletes every one of them.
\<close>

definition isDangerous :: "char \<Rightarrow> bool" where
  "isDangerous c \<longleftrightarrow>
     c = CHR ''<'' \<or> c = CHR ''>'' \<or> c = CHR 0x22 \<or> c = CHR 0x27 \<or> c = CHR 0x60"

definition removeDangerous :: "string \<Rightarrow> string" where
  "removeDangerous s = filter (\<lambda>c. \<not> isDangerous c) s"

definition validateInput :: "string \<Rightarrow> string option" where
  "validateInput input =
     (if input = [] then None
      else let trimmed = trim input
           in if length trimmed = 0 \<or> length trimmed > 500 then None
              else let sanitized = removeDangerous trimmed
                   in if length sanitized = 0 then None else Some sanitized)"

subsection \<open>Regular expressions as backtracking matchers\<close>

text \<open>
  A matcher returns, for the text that is left, every way to match a prefix of it, as
  pairs of the matched text and the rest, in the order in which a backtracking engine
  tries them. The first complete match of a pattern is the match the engine reports.
\<close>

type_synonym matcher = "string \<Rightarrow> (string \<times> string) list"

text \<open>The non-empty prefixes made of characters of a class, shortest first.\<close>

fun splits :: "(char \<Rightarrow> bool) \<Rightarrow> matcher" where
  "splits P [] = []"
| "splits P (x # xs) =
     (if P x then ([x], xs) # map (\<lambda>(p, r). (x # p, r)) (splits P xs) else [])"

text \<open>\<^verbatim>\<open>c+\<close> (greedy: longest first), \<^verbatim>\<open>c+?\<close> (lazy: shortest first), \<^verbatim>\<open>c{1,2}\<close>.\<close>

definition plusGreedy :: "(char \<Rightarrow> bool) \<Rightarrow> matcher" where
  "plusGreedy P s = rev (splits P s)"

definition plusLazy :: "(char \<Rightarrow> bool) \<Rightarrow> matcher" where
  "plusLazy P s = splits P s"

definition oneOrTwo :: "(char \<Rightarrow> bool) \<Rightarrow> matcher" where
  "oneOrTwo P s = rev (take 2 (splits P s))"

text \<open>\<^verbatim>\<open>c?\<close>: the character first, then nothing.\<close>

definition optChar :: "char \<Rightarrow> matcher" where
  "optChar c s =
     (case s of
        [] \<Rightarrow> [([], s)]
      | x # r \<Rightarrow> if x = c then [([c], r), ([], s)] else [([], s)])"

text \<open>\<^verbatim>\<open>(?:\.\d{1,2})?\<close>\<close>

definition fraction :: matcher where
  "fraction s =
     (case s of
        [] \<Rightarrow> [([], s)]
      | x # r \<Rightarrow>
          if x = CHR ''.'' then map (\<lambda>(d, r'). (x # d, r')) (oneOrTwo isDigit r) @ [([], s)]
          else [([], s)])"

text \<open>
  The amount group: \<^verbatim>\<open>-?\d+(?:\.\d{1,2})?\<close>, and with \<open>dollar\<close> the same after
  \<^verbatim>\<open>\$?\<close>.
\<close>

definition number :: "bool \<Rightarrow> matcher" where
  "number dollar s =
     [(a @ b @ c @ d, r4).
        (a, r1) \<leftarrow> (if dollar then optChar (CHR ''$'') s else [([], s)]),
        (b, r2) \<leftarrow> optChar (CHR ''-'') r1,
        (c, r3) \<leftarrow> plusGreedy isDigit r2,
        (d, r4) \<leftarrow> fraction r3]"

text \<open>\<^verbatim>\<open>.\<close> matches every character except a line terminator.\<close>

definition isDot :: "char \<Rightarrow> bool" where
  "isDot c \<longleftrightarrow> \<not> isLineTerminator c"

definition firstMatch :: "'a list \<Rightarrow> 'a option" where
  "firstMatch ms = (case ms of [] \<Rightarrow> None | m # _ \<Rightarrow> Some m)"

text \<open>
  \<^verbatim>\<open>/^(NUMBER)\s+(.+)$/\<close> and \<^verbatim>\<open>/^(.+?)\s+(NUMBER)$/\<close>: the two capture groups of
  the first match, \<open>None\<close> when the pattern does not match.
\<close>

definition amountFirst :: "bool \<Rightarrow> string \<Rightarrow> (string \<times> string) option" where
  "amountFirst dollar s =
     firstMatch
       [(g1, g2).
          (g1, r1) \<leftarrow> number dollar s,
          (ws, r2) \<leftarrow> plusGreedy isWhiteSpace r1,
          (g2, r3) \<leftarrow> plusGreedy isDot r2,
          r3 = []]"

definition nameFirst :: "bool \<Rightarrow> string \<Rightarrow> (string \<times> string) option" where
  "nameFirst dollar s =
     firstMatch
       [(g1, g2).
          (g1, r1) \<leftarrow> plusLazy isDot s,
          (ws, r2) \<leftarrow> plusGreedy isWhiteSpace r1,
          (g2, r3) \<leftarrow> number dollar r2,
          r3 = []]"

text \<open>\<^verbatim>\<open>validated.match(patterns[i])\<close> for the four patterns of the source, in its order.\<close>

definition matchPattern :: "nat \<Rightarrow> string \<Rightarrow> (string \<times> string) option" where
  "matchPattern i s =
     (if i = 0 then amountFirst False s
      else if i = 1 then amountFirst True s
      else if i = 2 then nameFirst False s
      else nameFirst True s)"

text \<open>
  The exponent part of a decimal literal: \<^verbatim>\<open>e\<close> or \<^verbatim>\<open>E\<close>, an optional sign and
  digits. Its value is 0 when the text does not start with a complete one.
\<close>

definition exponentPart :: "string \<Rightarrow> int" where
  "exponentPart r =
     (if r \<noteq> [] \<and> (hd r = CHR ''e'' \<or> hd r = CHR ''E'')
      then let r1 = tl r;
               eneg = (r1 \<noteq> [] \<and> hd r1 = CHR ''-'');
               r2 = (if r1 \<noteq> [] \<and> (hd r1 = CHR ''-'' \<or> hd r1 = CHR ''+'') then tl r1 else r1);
               ed = takeWhile isDigit r2
           in if ed = [] then 0 else (if eneg then - 1 else 1) * int (digitsValue 10 ed)
      else 0)"

definition scaleByPowerOfTen :: "rat \<Rightarrow> int \<Rightarrow> rat" where
  "scaleByPowerOfTen v e = (if e \<ge> 0 then v * 10 ^ nat e else v / 10 ^ nat (- e))"

text \<open>
  The number that the longest prefix of a text that is an unsigned decimal literal
  denotes, with the sign bit \<open>neg\<close>: the literal is \<^verbatim>\<open>Infinity\<close>, or digits, a point
  and digits (one of the two runs of digits may be empty) with an exponent part. What
  follows the literal is ignored; when no digit is read the result is \<^verbatim>\<open>NaN\<close>. The
  value written is rounded by \<open>toDouble\<close>.
\<close>

definition decimalLiteral :: "(rat \<Rightarrow> magnitude) \<Rightarrow> bool \<Rightarrow> string \<Rightarrow> number" where
  "decimalLiteral toDouble neg s2 =
     (let ip = takeWhile isDigit s2;
          r = dropWhile isDigit s2;
          point = (r \<noteq> [] \<and> hd r = CHR ''.'');
          fp = (if point then takeWhile isDigit (tl r) else []);
          r1 = (if point then dropWhile isDigit (tl r) else r)
      in if take 8 s2 = ''Infinity'' then Number neg Infinity
         else if ip = [] \<and> fp = [] then NaN
         else Number neg (toDouble (scaleByPowerOfTen
                (of_nat (digitsValue 10 ip) + of_nat (digitsValue 10 fp) / 10 ^ length fp)
                (exponentPart r1))))"

text \<open>
  \<^verbatim>\<open>parseFloat\<close>: leading white space is skipped, one sign is read and becomes the
  sign bit, then the decimal literal is read.
\<close>

definition parseFloat :: "(rat \<Rightarrow> magnitude) \<Rightarrow> string \<Rightarrow> number" where
  "parseFloat toDouble s =
     (let s1 = dropWhile isWhiteSpace s;
          neg = (s1 \<noteq> [] \<and> hd s1 = CHR ''-'');
          s2 = (if s1 \<noteq> [] \<and> (hd s1 = CHR ''-'' \<or> hd s1 = CHR ''+'') then tl s1 else s1)
      in decimalLiteral toDouble neg s2)"

text \<open>
  The loop over the patterns. \<^verbatim>\<open>replace('$', '')\<close> and \<^verbatim>\<open>replace(',', '')\<close> with a
  string pattern delete the first occurrence only.
\<close>

fun tryPatterns :: "(rat \<Rightarrow> magnitude) \<Rightarrow> nat list \<Rightarrow> string \<Rightarrow> ParsedTransaction option" where
  "tryPatterns toDouble [] validated = None"
| "tryPatterns toDouble (i # rest) validated =
     (case matchPattern i validated of
        None \<Rightarrow> tryPatterns toDouble rest validated
      | Some (m1, m2) \<Rightarrow>
          (let amountStr = (if i = 2 \<or> i = 3
                            then remove1 (CHR '','') (remove1 (CHR ''$'') m2)
                            else remove1 (CHR '','') (remove1 (CHR ''$'') m1));
               nm = (if i = 2 \<or> i = 3 then trim m1 else trim m2);
               amt = parseFloat toDouble amountStr
           in if amt \<noteq> NaN \<and> length nm > 0 \<and> length nm \<le> 255
              then Some \<lparr>pt_amount = Math_abs amt, pt_name = nm\<rparr>
              else tryPatterns toDouble rest validated))"

definition parseTransactionDetails :: "(rat \<Rightarrow> magnitude) \<Rightarrow> string \<Rightarrow> ParsedTransaction option" where
  "parseTransactionDetails toDouble input =
     (case validateInput input of
        None \<Rightarrow> None
      | Some validated \<Rightarrow> tryPatterns toDouble [0, 1, 2, 3] validated)"

text \<open>
  The parser with its first two patterns collapsed into one, as the specification
  allows: in its words pattern 1 already subsumes pattern 2, so pattern 2 is dropped;
  the other reading keeps pattern 2 and drops pattern 1.
\<close>

definition parseCollapsedKeepFirst :: "(rat \<Rightarrow> magnitude) \<Rightarrow> string \<Rightarrow> ParsedTransaction option" where
  "parseCollapsedKeepFirst toDouble input =
     (case validateInput input of
        None \<Rightarrow> None
      | Some validated \<Rightarrow> tryPatterns toDouble [0, 2, 3] validated)"

definition parseCollapsedKeepSecond :: "(rat \<Rightarrow> magnitude) \<Rightarrow> string \<Rightarrow> ParsedTransaction option" where
  "parseCollapsedKeepSecond toDouble input =
     (case validateInput input of
        None \<Rightarrow> None
      | Some validated \<Rightarrow> tryPatterns toDouble [1, 2, 3] validated)"

subsection \<open>Well-formed amounts\<close>

text \<open>
  The amount of a well-formed line, in the words of the specification: an optional
  leading \<^verbatim>\<open>$\<close>, an optional minus sign, digits, and optionally a point with one or
  two decimal digits. \<open>ip\<close> are the digits before the point, \<open>fp\<close> the digits after
  it (none when there is no point).
\<close>

definition amountText :: "bool \<Rightarrow> bool \<Rightarrow> string \<Rightarrow> string \<Rightarrow> string" where
  "amountText dollar neg ip fp =
     (if dollar then ''$'' else []) @ (if neg then ''-'' else []) @ ip
       @ (if fp = [] then [] else CHR ''.'' # fp)"

text \<open>The value such a text denotes when its sign is left out.\<close>

definition decimalValue :: "string \<Rightarrow> string \<Rightarrow> rat" where
  "decimalValue ip fp = of_nat (digitsValue 10 ip) + of_nat (digitsValue 10 fp) / 10 ^ length fp"

section \<open>The conversation engine (bot.ts)\<close>

text \<open>
  \<^verbatim>\<open>this.categories\<close> and \<^verbatim>\<open>this.accounts\<close>: the reference data the bot loaded in
  \<^verbatim>\<open>initialize\<close>, its live cache.
\<close>

record Bot =
  bot_categories :: "Category list"
  bot_accounts :: "Account list"

text \<open>
  What the engine takes from outside: \<^verbatim>\<open>sureApi.createTransaction\<close>, which either
  resolves (\<open>Inr\<close>) or throws (\<open>Inl\<close>, with the text
  \<^verbatim>\<open>error.response?.data?.message || error.message\<close>); the text that
  \<^verbatim>\<open>getRecentTransactions\<close> replies with; \<^verbatim>\<open>formatCurrency\<close> (\<^verbatim>\<open>Intl.NumberFormat\<close>);
  today's date, \<^verbatim>\<open>new Date().toISOString().split('T')[0]\<close>; and the rounding of
  the host's numbers.
\<close>

record Env =
  createTransaction :: "CreateTransactionParams \<Rightarrow> reply + unit"
  recentTransactions :: reply
  formatCurrency :: "number \<Rightarrow> reply"
  today :: string
  rounding :: "rat \<Rightarrow> magnitude"

definition cancelledReply :: reply where
  \<open>cancelledReply = crossMark # str '' Cancelled. Type "new" to add a transaction.''\<close>

definition invalidSelectionReply :: reply where
  "invalidSelectionReply =
     crossMark # str '' Invalid selection. Please reply with a number from the list.''"

definition getMainMenu :: reply where
  "getMainMenu =
     house # str '' *Main Menu*\<newline>\<newline>Commands:\<newline>''
     @ bullet # str '' *new* - Add transaction\<newline>''
     @ bullet # str '' */recent* - View recent transactions\<newline>''
     @ bullet # str '' */accounts* - List accounts\<newline>''
     @ bullet # str '' */help* - Show this message''"

definition getHelpMessage :: reply where
  \<open>getHelpMessage =
     books # str '' *Sure.am WhatsApp Bot Help*\<newline>\<newline>*Commands:*\<newline>''
     @ bullet # str '' *new* or */add* - Add a new transaction\<newline>''
     @ bullet # str '' */recent* - View recent transactions\<newline>''
     @ bullet # str '' */accounts* - List your accounts\<newline>''
     @ bullet # str '' */back* - Go back to main menu\<newline>''
     @ bullet # str '' */cancel* - Cancel current operation\<newline>''
     @ bullet # str ('' */help* - Show this message\<newline>\<newline>''
     @ ''*How to add a transaction:*\<newline>1. Type "new"\<newline>2. Select Expense or Income\<newline>''
     @ ''3. Select an account\<newline>4. Enter amount and name (e.g., "25.50 Store")\<newline>''
     @ ''5. Select a category\<newline>\<newline>*Tips:*\<newline>'')
     @ bullet # str '' Amounts can be formatted as "25.50" or "$25.50"\<newline>''
     @ bullet # str '' You can put the name before or after the amount\<newline>''
     @ bullet # str '' Type "/back" at any time to return to main menu''\<close>

definition listAccounts :: "Bot \<Rightarrow> reply" where
  "listAccounts self =
     (if length (bot_accounts self) = 0 then crossMark # str '' No accounts found.''
      else bank # str ('' *Your Accounts:*\<newline>\<newline>''
           @ concat (map (\<lambda>(i, acc).
                 showNat (i + 1) @ ''. '' @ acc_name acc
                   @ (case balance acc of
                        None \<Rightarrow> []
                      | Some b \<Rightarrow> if b = [] then [] else '' - '' @ b)
                   @ ''\<newline>'') (enumerate 0 (bot_accounts self)))))"

definition handleIdle :: "Bot \<Rightarrow> Env \<Rightarrow> sessions \<Rightarrow> string \<Rightarrow> string \<Rightarrow> int \<Rightarrow> reply \<times> sessions" where
  \<open>handleIdle self env sessions userId message now =
     (let text = toLowerCase (trim message)
      in if text = ''new'' \<or> text = ''/add'' \<or> text = ''add'' then
           (if length (bot_accounts self) = 0
            then (crossMark # str '' No accounts found. Please create an account in Sure.am first.'',
                  sessions)
            else (moneyBag # str '' *New Transaction*\<newline>\<newline>1. Expense\<newline>2. Income\<newline>\<newline>Reply with 1 or 2.\<newline>\<newline>_Type "/back" to return to main menu._'',
                  snd (updateSession sessions userId (\<lambda>s. s\<lparr>state := SELECT_TYPE\<rparr>) now)))
         else if text = ''/recent'' \<or> text = ''recent'' then (recentTransactions env, sessions)
         else if text = ''/accounts'' \<or> text = ''accounts'' then (listAccounts self, sessions)
         else (getMainMenu, sessions))\<close>

definition handleSelectType :: "Bot \<Rightarrow> sessions \<Rightarrow> string \<Rightarrow> string \<Rightarrow> int \<Rightarrow> reply \<times> sessions" where
  "handleSelectType self sessions userId message now =
     (let text = toLowerCase (trim message)
      in if text = ''1'' \<or> text = ''expense'' \<or> text = ''expenses'' then
           (formatAccountsList (bot_accounts self),
            snd (updateSession sessions userId
                   (\<lambda>s. s\<lparr>state := SELECT_ACCOUNT, transactionType := Some Expense,
                          accounts := Some (bot_accounts self)\<rparr>) now))
         else if text = ''2'' \<or> text = ''income'' then
           (formatAccountsList (bot_accounts self),
            snd (updateSession sessions userId
                   (\<lambda>s. s\<lparr>state := SELECT_ACCOUNT, transactionType := Some Income,
                          accounts := Some (bot_accounts self)\<rparr>) now))
         else (str ''Please reply with *1* (Expense) or *2* (Income).'', sessions))"

text \<open>
  \<^verbatim>\<open>parseInt(text) - 1\<close>: \<open>None\<close> is \<^verbatim>\<open>NaN\<close>, which stays \<^verbatim>\<open>NaN\<close>. The test
  \<^verbatim>\<open>!isNaN(index) && index >= 0 && index < xs.length\<close>.
\<close>

definition indexInRange :: "int option \<Rightarrow> 'a list \<Rightarrow> bool" where
  "indexInRange index xs \<longleftrightarrow> index \<noteq> None \<and> the index \<ge> 0 \<and> the index < int (length xs)"

definition handleSelectAccount :: "Bot \<Rightarrow> sessions \<Rightarrow> string \<Rightarrow> string \<Rightarrow> int \<Rightarrow> reply \<times> sessions" where
  \<open>handleSelectAccount self sessions userId message now =
     (let (session, sessions1) = getSession sessions userId now;
          text = trim message;
          accs = (case accounts session of Some a \<Rightarrow> a | None \<Rightarrow> bot_accounts self);
          index = map_option (\<lambda>n. n - 1) (parseInt text);
          selectedAccount =
            (if indexInRange index accs then Some (accs ! nat (the index))
             else find (\<lambda>a. toLowerCase (acc_name a) = toLowerCase text) accs)
      in case selectedAccount of
           None \<Rightarrow> (invalidSelectionReply, sessions1)
         | Some sel \<Rightarrow>
            (let prompt =
                   (if transactionType session = Some Expense
                    then memo # str '' Enter amount and name.\<newline>\<newline>Example: `25.50 Trader Joe's`''
                    else memo # str '' Enter amount and name.\<newline>\<newline>Example: `1500 Salary`'');
                 sessions2 = snd (updateSession sessions1 userId
                                   (\<lambda>s. s\<lparr>state := ENTER_DETAILS, accountId := Some (acc_id sel)\<rparr>) now)
             in (prompt @ str (''\<newline>\<newline>Account: *'' @ acc_name sel
                   @ ''*\<newline>\<newline>_Type "/back" to return to main menu._''),
                 sessions2)))\<close>

definition handleEnterDetails :: "Bot \<Rightarrow> Env \<Rightarrow> sessions \<Rightarrow> string \<Rightarrow> string \<Rightarrow> int \<Rightarrow> reply \<times> sessions" where
  \<open>handleEnterDetails self env sessions userId message now =
     (case parseTransactionDetails (rounding env) message of
        None \<Rightarrow>
          (crossMark # str '' Couldn't parse that. Please use format:\<newline>`25.50 Store Name`'', sessions)
      | Some parsed \<Rightarrow>
          (formatCategoriesList (bot_categories self),
           snd (updateSession sessions userId
                  (\<lambda>s. s\<lparr>state := SELECT_CATEGORY, amount := Some (pt_amount parsed),
                         name := Some (pt_name parsed),
                         categories := Some (bot_categories self)\<rparr>) now)))\<close>

text \<open>
  The third component of the result is the argument of the call to
  \<^verbatim>\<open>createTransaction\<close>, \<open>None\<close> when the handler returns without calling it.
\<close>

definition handleSelectCategory ::
  "Bot \<Rightarrow> Env \<Rightarrow> sessions \<Rightarrow> string \<Rightarrow> string \<Rightarrow> int
     \<Rightarrow> reply \<times> sessions \<times> CreateTransactionParams option" where
  \<open>handleSelectCategory self env sessions userId message now =
     (let (session, sessions1) = getSession sessions userId now;
          text = trim message;
          index = map_option (\<lambda>n. n - 1) (parseInt text);
          selectedCategory =
            (if indexInRange index (bot_categories self)
             then Some (bot_categories self ! nat (the index))
             else find (\<lambda>c. toLowerCase (cat_name c) = toLowerCase text) (bot_categories self))
      in case selectedCategory of
           None \<Rightarrow> (invalidSelectionReply, sessions1, None)
         | Some sel \<Rightarrow>
            (let amt = (case amount session of
                          None \<Rightarrow> NaN
                        | Some a \<Rightarrow>
                            if transactionType session = Some Expense then negate (Math_abs a)
                            else Math_abs a);
                 account = find (\<lambda>a. Some (acc_id a) = accountId session) (bot_accounts self);
                 accountName = (case account of
                                  None \<Rightarrow> ''Unknown''
                                | Some a \<Rightarrow> if acc_name a = [] then ''Unknown'' else acc_name a);
                 params = \<lparr>account_id = accountId session, date = today env, tx_amount = amt,
                           tx_name = name session, category_id = cat_id sel,
                           nature = transactionType session\<rparr>
             in case createTransaction env params of
                  Inr _ \<Rightarrow>
                    (checkMark # str '' *Transaction added!*\<newline>\<newline>''
                       @ str (if lessThanZero amt then ''-'' else ''+'')
                       @ formatCurrency env (Math_abs amt)
                       @ str ('' - ''
                           @ (case name session of None \<Rightarrow> ''undefined'' | Some n \<Rightarrow> n)
                           @ ''\<newline>Category: '' @ cat_name sel
                           @ ''\<newline>Account: '' @ accountName
                           @ ''\<newline>\<newline>Type "new" to add another.''),
                     resetSession sessions1 userId now, Some params)
                | Inl msg \<Rightarrow>
                    (crossMark # str '' Failed to create transaction. Please try again.\<newline>\<newline>Error: '' @ msg,
                     sessions1, Some params)))\<close>

text \<open>
  \<^verbatim>\<open>handleMessage\<close>. The \<^verbatim>\<open>default\<close> branch of the source's \<^verbatim>\<open>switch\<close> has no
  counterpart: the five states are all there are.
\<close>

definition handleMessage ::
  "Bot \<Rightarrow> Env \<Rightarrow> sessions \<Rightarrow> string \<Rightarrow> string \<Rightarrow> int
     \<Rightarrow> reply \<times> sessions \<times> CreateTransactionParams option" where
  "handleMessage self env sessions userId message now =
     (let (session, sessions1) = getSession sessions userId now;
          text = toLowerCase (trim message)
      in if text = ''/cancel'' \<or> text = ''cancel''
         then (cancelledReply, resetSession sessions1 userId now, None)
         else if text = ''/back'' \<or> text = ''back'' \<or> text = ''menu''
         then (getMainMenu, resetSession sessions1 userId now, None)
         else if text = ''/help'' \<or> text = ''help''
         then (getHelpMessage, sessions1, None)
         else case state session of
                IDLE \<Rightarrow>
                  (let (reply, sessions2) = handleIdle self env sessions1 userId message now
                   in (reply, sessions2, None))
              | SELECT_TYPE \<Rightarrow>
                  (let (reply, sessions2) = handleSelectType self sessions1 userId message now
                   in (reply, sessions2, None))
              | SELECT_ACCOUNT \<Rightarrow>
                  (let (reply, sessions2) = handleSelectAccount self sessions1 userId message now
                   in (reply, sessions2, None))
              | ENTER_DETAILS \<Rightarrow>
                  (let (reply, sessions2) = handleEnterDetails self env sessions1 userId message now
                   in (reply, sessions2, None))
              | SELECT_CATEGORY \<Rightarrow> handleSelectCategory self env sessions1 userId message now)"

section \<open>The process (index.ts)\<close>

text \<open>
  index.ts creates one \<^verbatim>\<open>SessionManager\<close> and starts its cleanup timer; the bot it
  creates reads and writes the \<^verbatim>\<open>sessions\<close> map of state.ts. The two maps are
  different objects.
\<close>

record Process =
  engineSessions :: sessions
  sessionManager :: SessionManager
  engine :: Bot

text \<open>One tick of the cleanup timer: \<^verbatim>\<open>() => this.clearExpiredSessions()\<close>.\<close>

definition sweepTick :: "Process \<Rightarrow> int \<Rightarrow> Process" where
  "sweepTick p now =
     (if cleanupInterval (sessionManager p)
      then p\<lparr>sessionManager := clearExpiredSessions (sessionManager p) now\<rparr>
      else p)"

text \<open>\<^verbatim>\<open>bot.handleMessage(sender, text)\<close> in the message handler of index.ts.\<close>

definition onMessage ::
  "Process \<Rightarrow> Env \<Rightarrow> string \<Rightarrow> string \<Rightarrow> int \<Rightarrow> reply \<times> Process \<times> CreateTransactionParams option" where
  "onMessage p env sender text now =
     (let (reply, sessions', submitted) = handleMessage (engine p) env (engineSessions p) sender text now
      in (reply, p\<lparr>engineSessions := sessions'\<rparr>, submitted))"

section \<open>Example data\<close>

text \<open>
  Reference data and sessions on which the theorems below are evaluated: two
  categories, stored income first; two accounts, the second with a name that starts
  with a digit; a collaborator that fails and one that succeeds. The rounding of the
  examples is exact: the amounts of the examples are doubles.
\<close>

definition exSalary :: Category where
  "exSalary = \<lparr>cat_id = ''c-salary'', cat_name = ''Salary'', classification = ''income'',
               color = None, icon = None\<rparr>"

definition exFood :: Category where
  "exFood = \<lparr>cat_id = ''c-food'', cat_name = ''Food'', classification = ''expense'',
             color = None, icon = None\<rparr>"

definition exCash :: Account where
  "exCash = \<lparr>acc_id = ''a-cash'', acc_name = ''Cash'', account_type = ''depository'',
             balance = None, currency = None\<rparr>"

definition exBank :: Account where
  "exBank = \<lparr>acc_id = ''a-bank'', acc_name = ''1st Bank'', account_type = ''depository'',
             balance = None, currency = None\<rparr>"

definition exDowning :: Account where
  "exDowning = \<lparr>acc_id = ''a-downing'', acc_name = ''10 Downing'', account_type = ''depository'',
                balance = None, currency = None\<rparr>"

definition exBot :: Bot where
  "exBot = \<lparr>bot_categories = [exSalary, exFood], bot_accounts = [exCash, exBank]\<rparr>"

definition exEnvFail :: Env where
  "exEnvFail = \<lparr>createTransaction = (\<lambda>p. Inl (str ''timeout'')), recentTransactions = [],
                formatCurrency = (\<lambda>a. []), today = ''2024-01-01'', rounding = Finite\<rparr>"

definition exEnvOk :: Env where
  "exEnvOk = \<lparr>createTransaction = (\<lambda>p. Inr ()), recentTransactions = [],
              formatCurrency = (\<lambda>a. []), today = ''2024-01-01'', rounding = Finite\<rparr>"

text \<open>A session waiting in \<^verbatim>\<open>SELECT_ACCOUNT\<close>, as \<^verbatim>\<open>handleSelectType\<close> leaves it.\<close>

definition exSelectAccount :: UserSession where
  "exSelectAccount =
     \<lparr>state = SELECT_ACCOUNT, transactionType = Some Expense, accountId = None, amount = None,
      name = None, categories = None, accounts = Some [exCash, exBank],
      createdAt = 0, lastActivityAt = 0\<rparr>"

text \<open>The same with a second account whose name starts with the digits \<^verbatim>\<open>10\<close>.\<close>

definition exSelectDowning :: UserSession where
  "exSelectDowning = exSelectAccount\<lparr>accounts := Some [exCash, exDowning]\<rparr>"

text \<open>A bot whose account cache has changed since the list was shown.\<close>

definition exBotChanged :: Bot where
  "exBotChanged = exBot\<lparr>bot_accounts := [exBank]\<rparr>"

text \<open>
  A session waiting in \<^verbatim>\<open>SELECT_CATEGORY\<close>, as \<^verbatim>\<open>handleEnterDetails\<close> leaves it
  after \<^verbatim>\<open>25.50 Coffee\<close>: the list it was shown is the one of \<open>exBot\<close>.
\<close>

definition exSelectCategory :: UserSession where
  "exSelectCategory =
     \<lparr>state = SELECT_CATEGORY, transactionType = Some Expense, accountId = Some ''a-cash'',
      amount = Some (Number False (Finite (51 / 2))), name = Some ''Coffee'', categories = Some [exSalary, exFood],
      accounts = Some [exCash, exBank], createdAt = 0, lastActivityAt = 0\<rparr>"

text \<open>
  The same step of a flow whose category list was shown when the cache held only
  \<open>exFood\<close>; the cache of \<open>exBot\<close> has changed since (index.ts builds a new bot on
  every reconnect, the sessions of state.ts live on).
\<close>

definition exStaleSnapshot :: UserSession where
  "exStaleSnapshot = exSelectCategory\<lparr>categories := Some [exFood]\<rparr>"

text \<open>
  The process as index.ts starts it, with the cleanup timer running and one session
  of the engine last active at time 0.
\<close>

definition exProcess :: Process where
  "exProcess =
     \<lparr>engineSessions = [''u'' \<mapsto> exSelectCategory],
      sessionManager = startCleanupInterval (SessionManager_new defaultSessionTimeoutMs),
      engine = exBot\<rparr>"

section \<open>Properties of the rate limiter\<close>

lemma filter_window_mono:
  fixes t0 t1 w :: int
  assumes "t0 \<le> t1"
  shows "filter (\<lambda>t. t1 - t < w) (filter (\<lambda>t. t0 - t < w) xs) = filter (\<lambda>t. t1 - t < w) xs"
proof -
  have "\<And>t. t1 - t < w \<Longrightarrow> t0 - t < w" using assms by linarith
  then show ?thesis by (induction xs) auto
qed

lemma agrees_isAllowed:
  assumes "agrees rl admitted T" and "T \<le> t0"
  shows "agrees (snd (isAllowed rl userId t0))
           (if fst (isAllowed rl userId t0) then admitted @ [(userId, t0)] else admitted) t0"
proof (cases "fst (isAllowed rl userId t0)")
  case False
  then have "snd (isAllowed rl userId t0) = rl"
    by (auto simp: isAllowed_def Let_def split: if_splits)
  with False assms show ?thesis
    by (auto simp: agrees_def)
next
  case True
  define recent where "recent = filter (\<lambda>t. t0 - t < windowMs rl) (attemptsOf rl userId)"
  from True have rl': "snd (isAllowed rl userId t0) =
      rl\<lparr>userAttempts := (userAttempts rl)(userId \<mapsto> recent @ [t0])\<rparr>"
    by (auto simp: isAllowed_def Let_def recent_def split: if_splits)
  have "filter (\<lambda>t. now - t < windowMs rl) (attemptsOf (snd (isAllowed rl userId t0)) u) =
        admittedInWindow (admitted @ [(userId, t0)]) u (windowMs rl) now"
    if "t0 \<le> now" for u now
  proof (cases "u = userId")
    case True
    have "filter (\<lambda>t. now - t < windowMs rl) recent =
          filter (\<lambda>t. now - t < windowMs rl) (attemptsOf rl userId)"
      unfolding recent_def using that by (rule filter_window_mono)
    also have "\<dots> = admittedInWindow admitted userId (windowMs rl) now"
      using assms that by (auto simp: agrees_def)
    finally show ?thesis
      using True by (simp add: rl' attemptsOf_def admittedInWindow_def admittedTimes_def)
  next
    case False
    have "filter (\<lambda>t. now - t < windowMs rl) (attemptsOf rl u) =
          admittedInWindow admitted u (windowMs rl) now"
      using assms that by (auto simp: agrees_def)
    then show ?thesis
      using False by (simp add: rl' attemptsOf_def admittedInWindow_def admittedTimes_def)
  qed
  with True show ?thesis
    by (simp add: agrees_def rl')
qed

lemma attemptsOf_cleanup:
  "attemptsOf (cleanup rl t0) u = filter (\<lambda>t. t0 - t < windowMs rl) (attemptsOf rl u)"
  by (simp add: cleanup_def attemptsOf_def Let_def split: option.splits)

lemma agrees_cleanup:
  assumes "agrees rl admitted T" and "T \<le> t0"
  shows "agrees (cleanup rl t0) admitted t0"
proof -
  have w: "windowMs (cleanup rl t0) = windowMs rl"
    by (simp add: cleanup_def)
  have "filter (\<lambda>t. now - t < windowMs rl) (attemptsOf (cleanup rl t0) u) =
        admittedInWindow admitted u (windowMs rl) now" if "t0 \<le> now" for u now
  proof -
    have "filter (\<lambda>t. now - t < windowMs rl) (attemptsOf (cleanup rl t0) u) =
          filter (\<lambda>t. now - t < windowMs rl) (attemptsOf rl u)"
      unfolding attemptsOf_cleanup using that by (rule filter_window_mono)
    then show ?thesis using assms that by (auto simp: agrees_def)
  qed
  then show ?thesis
    unfolding agrees_def w by blast
qed

lemma step_params:
  "step (rl, adm) c = (rl', adm') \<Longrightarrow> maxAttempts rl' = maxAttempts rl \<and> windowMs rl' = windowMs rl"
  by (cases c) (auto simp: isAllowed_def cleanup_def Let_def split: if_splits prod.splits)

lemma agrees_step:
  assumes "agrees rl adm T" and "T \<le> callTime c" and "step (rl, adm) c = (rl', adm')"
  shows "agrees rl' adm' (callTime c)"
proof (cases c)
  case (IsAllowed userId t0)
  with assms(3) have "rl' = snd (isAllowed rl userId t0)"
    and "adm' = (if fst (isAllowed rl userId t0) then adm @ [(userId, t0)] else adm)"
    by (auto split: prod.splits)
  with agrees_isAllowed [OF assms(1), of t0 userId] assms(2) IsAllowed show ?thesis
    by simp
next
  case (Cleanup t0)
  with assms agrees_cleanup [OF assms(1), of t0] show ?thesis
    by auto
qed

lemma agrees_foldl:
  assumes "agrees rl adm T" and "sorted (map callTime calls)"
    and "\<forall>c \<in> set calls. T \<le> callTime c" and "\<forall>c \<in> set calls. callTime c \<le> now" and "T \<le> now"
    and "foldl step (rl, adm) calls = (rl', adm')"
  shows "agrees rl' adm' now \<and> maxAttempts rl' = maxAttempts rl \<and> windowMs rl' = windowMs rl"
  using assms
proof (induction calls arbitrary: rl adm T)
  case Nil
  then show ?case by (auto simp: agrees_def)
next
  case (Cons c calls)
  obtain rl1 adm1 where s: "step (rl, adm) c = (rl1, adm1)"
    by (cases "step (rl, adm) c")
  have a1: "agrees rl1 adm1 (callTime c)"
    using agrees_step [OF Cons.prems(1) _ s] Cons.prems(3) by simp
  have "agrees rl' adm' now \<and> maxAttempts rl' = maxAttempts rl1 \<and> windowMs rl' = windowMs rl1"
  proof (rule Cons.IH [OF a1])
    show "sorted (map callTime calls)" using Cons.prems(2) by simp
    show "\<forall>c' \<in> set calls. callTime c \<le> callTime c'" using Cons.prems(2) by simp
    show "\<forall>c' \<in> set calls. callTime c' \<le> now" using Cons.prems(4) by simp
    show "callTime c \<le> now" using Cons.prems(4) by simp
    show "foldl step (rl1, adm1) calls = (rl', adm')" using Cons.prems(6) s by simp
  qed
  with step_params [OF s] show ?case by simp
qed

lemma agrees_new:
  "agrees \<lparr>userAttempts = Map.empty, maxAttempts = m, windowMs = w\<rparr> [] T"
  by (simp add: agrees_def attemptsOf_def admittedInWindow_def admittedTimes_def)

lemma ordered_step:
  assumes "ordered adm T" and "T \<le> callTime c" and "step (rl, adm) c = (rl', adm')"
  shows "ordered adm' (callTime c)"
proof (cases c)
  case (IsAllowed userId t0)
  with assms(3) have "adm' = adm \<or> adm' = adm @ [(userId, t0)]"
    by (auto split: prod.splits if_splits)
  with assms(1,2) IsAllowed show ?thesis
    by (fastforce simp: ordered_def sorted_append)
next
  case (Cleanup t0)
  with assms show ?thesis
    by (auto simp: ordered_def)
qed

lemma ordered_foldl:
  assumes "ordered adm T" and "sorted (map callTime calls)"
    and "\<forall>c \<in> set calls. T \<le> callTime c" and "\<forall>c \<in> set calls. callTime c \<le> now" and "T \<le> now"
    and "foldl step (rl, adm) calls = (rl', adm')"
  shows "ordered adm' now"
  using assms
proof (induction calls arbitrary: rl adm T)
  case Nil
  then show ?case by (auto simp: ordered_def)
next
  case (Cons c calls)
  obtain rl1 adm1 where s: "step (rl, adm) c = (rl1, adm1)"
    by (cases "step (rl, adm) c")
  have o1: "ordered adm1 (callTime c)"
    using ordered_step [OF Cons.prems(1) _ s] Cons.prems(3) by simp
  show ?case
  proof (rule Cons.IH [OF o1])
    show "sorted (map callTime calls)" using Cons.prems(2) by simp
    show "\<forall>c' \<in> set calls. callTime c \<le> callTime c'" using Cons.prems(2) by simp
    show "\<forall>c' \<in> set calls. callTime c' \<le> now" using Cons.prems(4) by simp
    show "callTime c \<le> now" using Cons.prems(4) by simp
    show "foldl step (rl1, adm1) calls = (rl', adm')" using Cons.prems(6) s by simp
  qed
qed

lemma sorted_le_last:
  fixes xs :: "int list"
  shows "sorted xs \<Longrightarrow> x \<in> set xs \<Longrightarrow> x \<le> last xs"
  by (induction xs) auto

lemma window_empty_after_last:
  assumes "ordered adm T" and "admittedTimes adm userId \<noteq> []"
    and "w \<le> now - last (admittedTimes adm userId)"
  shows "admittedInWindow adm userId w now = []"
proof -
  have "sorted (admittedTimes adm userId)"
    using assms(1) unfolding ordered_def admittedTimes_def by (simp add: sorted_filter)
  then have "\<forall>t \<in> set (admittedTimes adm userId). t \<le> last (admittedTimes adm userId)"
    by (auto intro: sorted_le_last)
  with assms(3) have "\<forall>t \<in> set (admittedTimes adm userId). \<not> now - t < w"
    by fastforce
  then show ?thesis
    by (simp add: admittedInWindow_def)
qed

text \<open>
  Claim C4. On a limiter built with \<open>maxA\<close> and \<open>windowM\<close>, after any sequence of
  \<^verbatim>\<open>isAllowed\<close> calls and cleanup sweeps whose clock readings never decrease, a call
  \<^verbatim>\<open>isAllowed(userId)\<close> at \<open>now\<close> returns true if and only if the number of
  attempts admitted before for that identity with \<open>now - t < windowM\<close> is below
  \<open>maxA\<close>; a rejected call leaves the limiter as it was, so a rejected attempt is
  never counted; an admitted call stores exactly the admitted attempts still within
  the window followed by its own timestamp; and with \<open>maxA \<ge> 1\<close> the call is admitted
  as soon as the window of the last admitted attempt has passed, however many calls
  were rejected in between.
\<close>

theorem isAllowed_sliding_window:
  assumes "RateLimiter_new maxA windowM = Inr rl0"
    and "sorted (map callTime calls)"
    and "\<forall>c \<in> set calls. callTime c \<le> now"
    and "run rl0 calls = (rl, admitted)"
  shows "(fst (isAllowed rl userId now) \<longleftrightarrow>
            int (length (admittedInWindow admitted userId windowM now)) < maxA)
       \<and> (\<not> fst (isAllowed rl userId now) \<longrightarrow> snd (isAllowed rl userId now) = rl)
       \<and> (fst (isAllowed rl userId now) \<longrightarrow>
            attemptsOf (snd (isAllowed rl userId now)) userId =
              admittedInWindow admitted userId windowM now @ [now])
       \<and> (1 \<le> maxA \<and> admittedTimes admitted userId \<noteq> []
              \<and> windowM \<le> now - last (admittedTimes admitted userId)
            \<longrightarrow> fst (isAllowed rl userId now))"
proof -
  from assms(1) have rl0: "rl0 = \<lparr>userAttempts = Map.empty, maxAttempts = maxA, windowMs = windowM\<rparr>"
    by (simp add: RateLimiter_new_def)
  define T where "T = (if calls = [] then now else callTime (hd calls))"
  have lo: "\<forall>c \<in> set calls. T \<le> callTime c"
    using assms(2) by (cases calls) (auto simp: T_def)
  have Tn: "T \<le> now"
    using assms(3) by (cases calls) (auto simp: T_def)
  have a0: "agrees rl0 [] T"
    unfolding rl0 by (rule agrees_new)
  have o0: "ordered [] T"
    by (simp add: ordered_def)
  have fin: "foldl step (rl0, []) calls = (rl, admitted)"
    using assms(4) by (simp add: run_def)
  have inv: "agrees rl admitted now \<and> maxAttempts rl = maxAttempts rl0 \<and> windowMs rl = windowMs rl0"
    by (rule agrees_foldl [OF a0 assms(2) lo assms(3) Tn fin])
  have ord: "ordered admitted now"
    by (rule ordered_foldl [OF o0 assms(2) lo assms(3) Tn fin])
  from inv have m: "maxAttempts rl = maxA" and w: "windowMs rl = windowM"
    by (simp_all add: rl0)
  have eq: "filter (\<lambda>t. now - t < windowM) (attemptsOf rl userId) =
            admittedInWindow admitted userId windowM now"
    using inv w by (auto simp: agrees_def)
  have 1: "fst (isAllowed rl userId now) \<longleftrightarrow>
          int (length (admittedInWindow admitted userId windowM now)) < maxA"
    using eq m w by (auto simp: isAllowed_def Let_def)
  have 2: "\<not> fst (isAllowed rl userId now) \<longrightarrow> snd (isAllowed rl userId now) = rl"
    by (auto simp: isAllowed_def Let_def)
  have 3: "fst (isAllowed rl userId now) \<longrightarrow>
          attemptsOf (snd (isAllowed rl userId now)) userId =
            admittedInWindow admitted userId windowM now @ [now]"
    using eq w by (auto simp: isAllowed_def Let_def attemptsOf_def)
  have 4: "fst (isAllowed rl userId now)"
    if "1 \<le> maxA" "admittedTimes admitted userId \<noteq> []"
      "windowM \<le> now - last (admittedTimes admitted userId)"
  proof -
    have "admittedInWindow admitted userId windowM now = []"
      using ord that(2,3) by (rule window_empty_after_last)
    with 1 that(1) show ?thesis by simp
  qed
  from 1 2 3 4 show ?thesis by blast
qed

text \<open>
  The test of the repository: with 3 attempts per 1000 ms, three calls at 0, 1 and
  2 ms are admitted and the fourth, at 3 ms, is rejected and changes nothing; at
  1002 ms the window of the last admitted attempt has passed and the call is admitted.
\<close>

theorem isAllowed_sliding_window_witness:
  "RateLimiter_new 3 1000 = Inr \<lparr>userAttempts = Map.empty, maxAttempts = 3, windowMs = 1000\<rparr>
   \<and> sorted (map callTime [IsAllowed ''u'' 0, IsAllowed ''u'' 1, IsAllowed ''u'' 2])
   \<and> list_all (\<lambda>c. callTime c \<le> 3) [IsAllowed ''u'' 0, IsAllowed ''u'' 1, IsAllowed ''u'' 2]
   \<and> run \<lparr>userAttempts = Map.empty, maxAttempts = 3, windowMs = 1000\<rparr>
         [IsAllowed ''u'' 0, IsAllowed ''u'' 1, IsAllowed ''u'' 2] =
       (\<lparr>userAttempts = [''u'' \<mapsto> [0, 1, 2]], maxAttempts = 3, windowMs = 1000\<rparr>,
        [(''u'', 0), (''u'', 1), (''u'', 2)])
   \<and> admittedInWindow [(''u'', 0), (''u'', 1), (''u'', 2)] ''u'' 1000 3 = [0, 1, 2]
   \<and> \<not> fst (isAllowed \<lparr>userAttempts = [''u'' \<mapsto> [0, 1, 2]], maxAttempts = 3, windowMs = 1000\<rparr> ''u'' 3)
   \<and> snd (isAllowed \<lparr>userAttempts = [''u'' \<mapsto> [0, 1, 2]], maxAttempts = 3, windowMs = 1000\<rparr> ''u'' 3) =
       \<lparr>userAttempts = [''u'' \<mapsto> [0, 1, 2]], maxAttempts = 3, windowMs = 1000\<rparr>
   \<and> last (admittedTimes [(''u'', 0), (''u'', 1), (''u'', 2)] ''u'') = 2
   \<and> fst (isAllowed \<lparr>userAttempts = [''u'' \<mapsto> [0, 1, 2]], maxAttempts = 3, windowMs = 1000\<rparr> ''u'' 1002)"
proof -
  have h1: "RateLimiter_new 3 1000 = Inr \<lparr>userAttempts = Map.empty, maxAttempts = 3, windowMs = 1000\<rparr>"
    by (simp add: RateLimiter_new_def)
  have h2: "sorted (map callTime [IsAllowed ''u'' 0, IsAllowed ''u'' 1, IsAllowed ''u'' 2])"
    by simp
  have h3: "\<forall>c \<in> set [IsAllowed ''u'' 0, IsAllowed ''u'' 1, IsAllowed ''u'' 2]. callTime c \<le> 3"
    by simp
  have h3': "\<forall>c \<in> set [IsAllowed ''u'' 0, IsAllowed ''u'' 1, IsAllowed ''u'' 2]. callTime c \<le> 1002"
    by simp
  have h4: "run \<lparr>userAttempts = Map.empty, maxAttempts = 3, windowMs = 1000\<rparr>
         [IsAllowed ''u'' 0, IsAllowed ''u'' 1, IsAllowed ''u'' 2] =
       (\<lparr>userAttempts = [''u'' \<mapsto> [0, 1, 2]], maxAttempts = 3, windowMs = 1000\<rparr>,
        [(''u'', 0), (''u'', 1), (''u'', 2)])"
    by (simp add: run_def isAllowed_def attemptsOf_def)
  have h5: "admittedInWindow [(''u'', 0), (''u'', 1), (''u'', 2)] ''u'' 1000 3 = [0, 1, 2]"
    by (simp add: admittedInWindow_def admittedTimes_def)
  have h6: "admittedTimes [(''u'', 0), (''u'', 1), (''u'', 2)] ''u'' = [0, 1, 2]"
    by (simp add: admittedTimes_def)
  have A: "\<not> fst (isAllowed \<lparr>userAttempts = [''u'' \<mapsto> [0, 1, 2]], maxAttempts = 3, windowMs = 1000\<rparr> ''u'' 3)
      \<and> snd (isAllowed \<lparr>userAttempts = [''u'' \<mapsto> [0, 1, 2]], maxAttempts = 3, windowMs = 1000\<rparr> ''u'' 3) =
       \<lparr>userAttempts = [''u'' \<mapsto> [0, 1, 2]], maxAttempts = 3, windowMs = 1000\<rparr>"
    using isAllowed_sliding_window [OF h1 h2 h3 h4, of "''u''"] h5 by simp
  have B: "fst (isAllowed \<lparr>userAttempts = [''u'' \<mapsto> [0, 1, 2]], maxAttempts = 3, windowMs = 1000\<rparr> ''u'' 1002)"
    using isAllowed_sliding_window [OF h1 h2 h3' h4, of "''u''"] h6
    by (simp add: admittedInWindow_def)
  from h1 h2 h3 h4 h5 h6 A B show ?thesis by simp
qed

text \<open>
  Claim C8, as the code has it. The constructor has no check: for every pair of
  arguments it returns a limiter that stores them as given, with an empty attempt
  history. No argument is rejected.
\<close>

theorem RateLimiter_new_accepts_all:
  "RateLimiter_new maxA windowM =
     Inr \<lparr>userAttempts = Map.empty, maxAttempts = maxA, windowMs = windowM\<rparr>"
  by (simp add: RateLimiter_new_def)

text \<open>
  Claim C8 as stated fails: \<^verbatim>\<open>new RateLimiter(0, -5)\<close> has \<open>maxAttempts < 1\<close> and
  \<open>windowMs \<le> 0\<close> and is constructed all the same.
\<close>

theorem RateLimiter_new_counterexample:
  "RateLimiter_new 0 (- 5) \<noteq> Inl RangeError
   \<and> RateLimiter_new 0 (- 5) = Inr \<lparr>userAttempts = Map.empty, maxAttempts = 0, windowMs = - 5\<rparr>"
  by (simp add: RateLimiter_new_def)

section \<open>Properties of the conversation engine\<close>

lemmas example_defs =
  exSalary_def exFood_def exCash_def exBank_def exDowning_def exBot_def exBotChanged_def
  exEnvFail_def exEnvOk_def exSelectAccount_def exSelectDowning_def exSelectCategory_def
  exStaleSnapshot_def

lemmas string_defs =
  toLowerCase_def trim_def isWhiteSpace_def toLowerChar_def upperLetters_def lowerLetters_def
  parseInt_def isRadixDigit_def digitValue_def digitsValue_def

lemmas engine_defs =
  handleMessage_def handleSelectCategory_def handleSelectAccount_def handleSelectType_def
  handleIdle_def handleEnterDetails_def getSession_def updateSession_def resetSession_def
  indexInRange_def Let_def

text \<open>
  The built-ins on text of the range: the no-break space is white space, the capital
  letters from U+00C0 on have small letters, the multiplication sign and the sharp s
  have not; \<^verbatim>\<open>parseInt\<close> reads a prefix.
\<close>

lemma string_examples:
  "trim (CHR 0xA0 # ''a b'' @ [CHR 0x09, CHR 0xA0]) = ''a b''"
  "toLowerCase (''/Cancel'' @ [CHR 0xC9, CHR 0xD7, CHR 0xDF]) = ''/cancel'' @ [CHR 0xE9, CHR 0xD7, CHR 0xDF]"
  "parseInt '' 12abc'' = Some 12"
  "parseInt ''0x1F'' = Some 31"
  "parseInt ''-7.5'' = Some (- 7)"
  "parseInt ''abc'' = None"
  by code_simp+

lemma getSession_Some:
  "sessions userId = Some session \<Longrightarrow> getSession sessions userId now = (session, sessions)"
  by (simp add: getSession_def)

lemma updateSession_Some:
  "sessions userId = Some session \<Longrightarrow>
   updateSession sessions userId f now =
     ((f session)\<lparr>lastActivityAt := now\<rparr>, sessions(userId \<mapsto> (f session)\<lparr>lastActivityAt := now\<rparr>))"
  by (simp add: updateSession_def getSession_def Let_def)

lemma resetSession_getSession:
  "resetSession (snd (getSession sessions userId now)) userId now =
     sessions(userId \<mapsto> freshSession now)"
  by (auto simp: resetSession_def getSession_def split: option.splits)

text \<open>
  A text that \<^verbatim>\<open>parseInt\<close> reads a number from is none of the global commands:
  they all start with a letter or a slash.
\<close>

lemma parseInt_None_letter:
  assumes "toLowerChar c \<in> {CHR ''c'', CHR ''/'', CHR ''b'', CHR ''m'', CHR ''h''}"
  shows "parseInt (c # r) = None"
proof -
  have nw: "\<not> isWhiteSpace c" using assms
    by (auto simp: isWhiteSpace_def toLowerChar_def upperLetters_def lowerLetters_def)
  have ns: "c \<noteq> CHR ''-''" "c \<noteq> CHR ''+''" "c \<noteq> CHR ''0''" using assms
    by (auto simp: toLowerChar_def upperLetters_def lowerLetters_def)
  have nd: "\<not> isRadixDigit 10 c" using assms
    by (auto simp: isRadixDigit_def digitValue_def)
  show ?thesis using nw ns nd
    by (simp add: parseInt_def Let_def)
qed

lemma parseInt_not_command:
  assumes "parseInt t \<noteq> None"
  shows "toLowerCase t \<notin> {''/cancel'', ''cancel'', ''/back'', ''back'', ''menu'', ''/help'', ''help''}"
proof
  assume a: "toLowerCase t \<in> {''/cancel'', ''cancel'', ''/back'', ''back'', ''menu'', ''/help'', ''help''}"
  then obtain c r where t: "t = c # r"
    by (cases t) (auto simp: toLowerCase_def)
  with a have "toLowerChar c \<in> {CHR ''c'', CHR ''/'', CHR ''b'', CHR ''m'', CHR ''h''}"
    by (auto simp: toLowerCase_def)
  then have "parseInt (c # r) = None" by (rule parseInt_None_letter)
  with assms t show False by simp
qed

text \<open>
  \<^verbatim>\<open>parseInt\<close> does not see the case of letters: the digits of radix 16 and the
  \<^verbatim>\<open>0x\<close> prefix are read in either case.
\<close>

lemma toLowerChar_idem: "toLowerChar (toLowerChar c) = toLowerChar c"
  by (simp add: toLowerChar_def upperLetters_def lowerLetters_def)

lemma toLowerChar_space: "isWhiteSpace (toLowerChar c) = isWhiteSpace c"
  by (simp add: toLowerChar_def upperLetters_def lowerLetters_def isWhiteSpace_def)

lemma toLowerChar_signs:
  "toLowerChar c = CHR ''-'' \<longleftrightarrow> c = CHR ''-''"
  "toLowerChar c = CHR ''+'' \<longleftrightarrow> c = CHR ''+''"
  "toLowerChar c = CHR ''0'' \<longleftrightarrow> c = CHR ''0''"
  "toLowerChar c = CHR ''x'' \<longleftrightarrow> c = CHR ''x'' \<or> c = CHR ''X''"
  "toLowerChar c \<noteq> CHR ''X''"
  by (auto simp: toLowerChar_def upperLetters_def lowerLetters_def)

lemma digitValue_lower: "digitValue radix (toLowerChar c) = digitValue radix c"
  by (simp add: digitValue_def toLowerChar_idem)

lemma isRadixDigit_lower: "isRadixDigit radix (toLowerChar c) = isRadixDigit radix c"
  by (simp add: isRadixDigit_def digitValue_lower)

lemma digitsValue_lower: "digitsValue radix (map toLowerChar z) = digitsValue radix z"
  by (simp add: digitsValue_def foldl_map digitValue_lower)

lemma hex_prefix_lower:
  "(take 2 (map toLowerChar s) = ''0x'' \<or> take 2 (map toLowerChar s) = ''0X'') \<longleftrightarrow>
   (take 2 s = ''0x'' \<or> take 2 s = ''0X'')"
proof (cases s)
  case Nil
  then show ?thesis by simp
next
  case (Cons a t)
  show ?thesis
  proof (cases t)
    case Nil
    with Cons show ?thesis by simp
  next
    case (Cons b u)
    with \<open>s = a # t\<close> show ?thesis
      by (auto simp: toLowerChar_signs)
  qed
qed

lemma parseInt_toLowerCase: "parseInt (toLowerCase s) = parseInt s"
proof -
  let ?f = toLowerChar
  define rest :: "bool \<Rightarrow> string \<Rightarrow> int option" where
    "rest neg s2 =
       (let hex = (take 2 s2 = ''0x'' \<or> take 2 s2 = ''0X'');
            radix = (if hex then 16 else 10);
            s3 = (if hex then drop 2 s2 else s2);
            z = takeWhile (isRadixDigit radix) s3
        in if z = [] then None
           else Some ((if neg then - 1 else 1) * int (digitsValue radix z)))" for neg s2
  define sgn :: "string \<Rightarrow> string" where
    "sgn s1 = (if s1 \<noteq> [] \<and> (hd s1 = CHR ''-'' \<or> hd s1 = CHR ''+'') then tl s1 else s1)" for s1
  have p: "parseInt t = rest (dropWhile isWhiteSpace t \<noteq> [] \<and> hd (dropWhile isWhiteSpace t) = CHR ''-'')
                          (sgn (dropWhile isWhiteSpace t))" for t
    by (simp add: parseInt_def rest_def sgn_def Let_def)
  have d1: "dropWhile isWhiteSpace (map ?f s) = map ?f (dropWhile isWhiteSpace s)"
    by (simp add: dropWhile_map comp_def toLowerChar_space)
  have n: "(map ?f s1 \<noteq> [] \<and> hd (map ?f s1) = CHR ''-'') = (s1 \<noteq> [] \<and> hd s1 = CHR ''-'')" for s1
    by (cases s1) (auto simp: toLowerChar_signs)
  have d2: "sgn (map ?f s1) = map ?f (sgn s1)" for s1
    by (cases s1) (auto simp: sgn_def toLowerChar_signs)
  have z: "takeWhile (isRadixDigit r) (map ?f t) = map ?f (takeWhile (isRadixDigit r) t)" for r t
    by (simp add: takeWhile_map comp_def isRadixDigit_lower)
  have r: "rest neg (map ?f s2) = rest neg s2" for neg s2
    unfolding rest_def Let_def hex_prefix_lower
    by (simp add: z drop_map digitsValue_lower)
  show ?thesis
    unfolding toLowerCase_def p d1 n d2 r ..
qed

lemma dispatch_no_command:
  assumes "sessions userId = Some session"
    and "toLowerCase (trim message) \<notin>
           {''/cancel'', ''cancel'', ''/back'', ''back'', ''menu'', ''/help'', ''help''}"
  shows "handleMessage self env sessions userId message now =
     (case state session of
        IDLE \<Rightarrow>
          (let (reply, sessions2) = handleIdle self env sessions userId message now
           in (reply, sessions2, None))
      | SELECT_TYPE \<Rightarrow>
          (let (reply, sessions2) = handleSelectType self sessions userId message now
           in (reply, sessions2, None))
      | SELECT_ACCOUNT \<Rightarrow>
          (let (reply, sessions2) = handleSelectAccount self sessions userId message now
           in (reply, sessions2, None))
      | ENTER_DETAILS \<Rightarrow>
          (let (reply, sessions2) = handleEnterDetails self env sessions userId message now
           in (reply, sessions2, None))
      | SELECT_CATEGORY \<Rightarrow> handleSelectCategory self env sessions userId message now)"
  using assms by (simp add: handleMessage_def getSession_Some)

text \<open>
  Claim C7. Whatever the state of the session, a message that is \<^verbatim>\<open>cancel\<close> or
  \<^verbatim>\<open>/cancel\<close> after trimming and lower-casing is answered with the cancellation
  notice, the cross mark U+274C followed by the text
  \<^verbatim>\<open> Cancelled. Type "new" to add a transaction.\<close>; no collaborator is called, and
  the session of the identity is replaced by a new one in state \<^verbatim>\<open>IDLE\<close> with no
  amount, name, account id or transaction type (and no stored lists), created at the
  time of the message. The sessions of the other identities stay as they are.
\<close>

theorem cancel_resets_session:
  assumes "toLowerCase (trim message) = ''cancel'' \<or> toLowerCase (trim message) = ''/cancel''"
  shows \<open>handleMessage self env sessions userId message now =
           (Uni 0x274C # str '' Cancelled. Type "new" to add a transaction.'',
            sessions(userId \<mapsto>
              \<lparr>state = IDLE, transactionType = None, accountId = None, amount = None,
               name = None, categories = None, accounts = None,
               createdAt = now, lastActivityAt = now\<rparr>),
            None)\<close>
  using assms resetSession_getSession [of sessions userId now]
  by (auto simp: handleMessage_def Let_def freshSession_def cancelledReply_def crossMark_def
           split: prod.splits)

text \<open>
  The theorem on a session in \<^verbatim>\<open>SELECT_CATEGORY\<close> that holds an amount, a name, an
  account id and a transaction type, for a message written with capital letters,
  between a no-break space and a space.
\<close>

theorem cancel_resets_session_witness:
  \<open>toLowerCase (trim (CHR 0xA0 # ''/Cancel '')) = ''/cancel''
   \<and> state exSelectCategory = SELECT_CATEGORY
   \<and> amount exSelectCategory = Some (Number False (Finite (51 / 2)))
   \<and> name exSelectCategory = Some ''Coffee''
   \<and> accountId exSelectCategory = Some ''a-cash''
   \<and> transactionType exSelectCategory = Some Expense
   \<and> handleMessage exBot exEnvOk [''u'' \<mapsto> exSelectCategory] ''u'' (CHR 0xA0 # ''/Cancel '') 9 =
       (Uni 0x274C # str '' Cancelled. Type "new" to add a transaction.'',
        [''u'' \<mapsto>
           \<lparr>state = IDLE, transactionType = None, accountId = None, amount = None,
            name = None, categories = None, accounts = None,
            createdAt = 9, lastActivityAt = 9\<rparr>],
        None)\<close>
proof -
  have e: "toLowerCase (trim (CHR 0xA0 # ''/Cancel '')) = ''/cancel''"
    by (simp add: string_defs)
  then have h: "toLowerCase (trim (CHR 0xA0 # ''/Cancel '')) = ''cancel''
      \<or> toLowerCase (trim (CHR 0xA0 # ''/Cancel '')) = ''/cancel''"
    by simp
  have s: "state exSelectCategory = SELECT_CATEGORY"
      "amount exSelectCategory = Some (Number False (Finite (51 / 2)))"
      "name exSelectCategory = Some ''Coffee''"
      "accountId exSelectCategory = Some ''a-cash''"
      "transactionType exSelectCategory = Some Expense"
    by (simp_all add: exSelectCategory_def)
  from cancel_resets_session [OF h, of exBot exEnvOk "[''u'' \<mapsto> exSelectCategory]" "''u''" 9] e s
  show ?thesis by simp
qed

text \<open>
  Claim C6. When a message handled in state \<^verbatim>\<open>SELECT_CATEGORY\<close> reaches the call of
  \<^verbatim>\<open>createTransaction\<close> and the call fails, the reply is the failure message with
  the collaborator's error text and the whole session store is what it was before the
  message: the session keeps its state, transaction type, account id, amount, name and
  time stamps.
\<close>

theorem failed_submission_keeps_session:
  assumes "sessions userId = Some session"
    and "state session = SELECT_CATEGORY"
    and "handleMessage self env sessions userId message now = (reply, sessions', Some params)"
    and "createTransaction env params = Inl msg"
  shows "sessions' = sessions
       \<and> reply = Uni 0x274C # str '' Failed to create transaction. Please try again.\<newline>\<newline>Error: '' @ msg"
proof -
  have g: "getSession sessions userId now = (session, sessions)"
    using assms(1) by (rule getSession_Some)
  from assms(3) have "handleSelectCategory self env sessions userId message now =
      (reply, sessions', Some params)"
    using g assms(2) by (auto simp: handleMessage_def Let_def split: if_splits)
  then show ?thesis
    using g assms(4)
    by (auto simp: handleSelectCategory_def Let_def crossMark_def split: option.splits sum.splits)
qed

lemma example_failed_submission:
  "snd (snd (handleMessage exBot exEnvFail [''u'' \<mapsto> exSelectCategory] ''u'' ''food'' 9)) =
     Some \<lparr>account_id = Some ''a-cash'', date = ''2024-01-01'', tx_amount = Number True (Finite (51 / 2)),
           tx_name = Some ''Coffee'', category_id = ''c-food'', nature = Some Expense\<rparr>"
  by (simp add: engine_defs string_defs example_defs)

theorem failed_submission_keeps_session_witness:
  "[''u'' \<mapsto> exSelectCategory] ''u'' = Some exSelectCategory
   \<and> state exSelectCategory = SELECT_CATEGORY
   \<and> snd (snd (handleMessage exBot exEnvFail [''u'' \<mapsto> exSelectCategory] ''u'' ''food'' 9)) =
       Some \<lparr>account_id = Some ''a-cash'', date = ''2024-01-01'', tx_amount = Number True (Finite (51 / 2)),
             tx_name = Some ''Coffee'', category_id = ''c-food'', nature = Some Expense\<rparr>
   \<and> createTransaction exEnvFail
         \<lparr>account_id = Some ''a-cash'', date = ''2024-01-01'', tx_amount = Number True (Finite (51 / 2)),
          tx_name = Some ''Coffee'', category_id = ''c-food'', nature = Some Expense\<rparr> = Inl (str ''timeout'')
   \<and> fst (snd (handleMessage exBot exEnvFail [''u'' \<mapsto> exSelectCategory] ''u'' ''food'' 9)) =
       [''u'' \<mapsto> exSelectCategory]
   \<and> fst (handleMessage exBot exEnvFail [''u'' \<mapsto> exSelectCategory] ''u'' ''food'' 9) =
       Uni 0x274C # str '' Failed to create transaction. Please try again.\<newline>\<newline>Error: timeout''"
proof -
  let ?h = "handleMessage exBot exEnvFail [''u'' \<mapsto> exSelectCategory] ''u'' ''food'' 9"
  let ?p = "\<lparr>account_id = Some ''a-cash'', date = ''2024-01-01'', tx_amount = Number True (Finite (51 / 2)),
             tx_name = Some ''Coffee'', category_id = ''c-food'', nature = Some Expense\<rparr>"
  have h1: "[''u'' \<mapsto> exSelectCategory] ''u'' = Some exSelectCategory"
    by simp
  have h2: "state exSelectCategory = SELECT_CATEGORY"
    by (simp add: exSelectCategory_def)
  have h3: "?h = (fst ?h, fst (snd ?h), Some ?p)"
    using example_failed_submission by (simp add: prod_eq_iff)
  have h4: "createTransaction exEnvFail ?p = Inl (str ''timeout'')"
    by (simp add: exEnvFail_def)
  from failed_submission_keeps_session
         [where sessions = "[''u'' \<mapsto> exSelectCategory]" and userId = "''u''"
            and session = exSelectCategory, OF h1 h2 h3 h4]
       h1 h2 h4 example_failed_submission
  show ?thesis by (simp add: str_def)
qed

text \<open>
  Claim C10, as the code has it. In state \<^verbatim>\<open>SELECT_ACCOUNT\<close> and in state
  \<^verbatim>\<open>SELECT_CATEGORY\<close>, when \<^verbatim>\<open>parseInt\<close> of the trimmed input is a number \<open>k\<close> with
  \<open>1 \<le> k\<close> and \<open>k\<close> at most the length of the list the handler indexes, entry \<open>k\<close>
  of that list is selected, whatever follows the digits in the input and whatever the
  names in the list are: the account handler stores its id and moves to
  \<^verbatim>\<open>ENTER_DETAILS\<close>, the category handler submits its id. The name comparison stands in
  the other branch of the same test, and every name that the input equals up to case
  parses to the same \<open>k\<close>: an entry whose own name parses to a number in range is never
  reached through its name.
\<close>

theorem numeric_prefix_selects_entry:
  assumes "sessions userId = Some session"
    and "parseInt (trim message) = Some k"
    and "1 \<le> k"
  shows "(state session = SELECT_ACCOUNT
            \<and> k \<le> int (length (case accounts session of Some a \<Rightarrow> a | None \<Rightarrow> bot_accounts self))
          \<longrightarrow> (\<exists>reply. handleMessage self env sessions userId message now =
                 (reply,
                  sessions(userId \<mapsto> session\<lparr>state := ENTER_DETAILS,
                     accountId := Some (acc_id ((case accounts session of Some a \<Rightarrow> a
                                                  | None \<Rightarrow> bot_accounts self) ! nat (k - 1))),
                     lastActivityAt := now\<rparr>),
                  None)))
       \<and> (state session = SELECT_CATEGORY \<and> k \<le> int (length (bot_categories self))
          \<longrightarrow> (\<exists>reply sessions' params.
                 handleMessage self env sessions userId message now = (reply, sessions', Some params)
                 \<and> category_id params = cat_id (bot_categories self ! nat (k - 1))))
       \<and> (\<forall>nm. toLowerCase nm = toLowerCase (trim message) \<longrightarrow> parseInt nm = Some k)"
proof -
  have nc: "toLowerCase (trim message) \<notin>
      {''/cancel'', ''cancel'', ''/back'', ''back'', ''menu'', ''/help'', ''help''}"
    using assms(2) by (intro parseInt_not_command) simp
  have d: "handleMessage self env sessions userId message now =
     (case state session of
        IDLE \<Rightarrow>
          (let (reply, sessions2) = handleIdle self env sessions userId message now
           in (reply, sessions2, None))
      | SELECT_TYPE \<Rightarrow>
          (let (reply, sessions2) = handleSelectType self sessions userId message now
           in (reply, sessions2, None))
      | SELECT_ACCOUNT \<Rightarrow>
          (let (reply, sessions2) = handleSelectAccount self sessions userId message now
           in (reply, sessions2, None))
      | ENTER_DETAILS \<Rightarrow>
          (let (reply, sessions2) = handleEnterDetails self env sessions userId message now
           in (reply, sessions2, None))
      | SELECT_CATEGORY \<Rightarrow> handleSelectCategory self env sessions userId message now)"
    using assms(1) nc by (rule dispatch_no_command)
  have g: "getSession sessions userId now = (session, sessions)"
    using assms(1) by (rule getSession_Some)
  have A: "\<exists>reply. handleMessage self env sessions userId message now =
                 (reply,
                  sessions(userId \<mapsto> session\<lparr>state := ENTER_DETAILS,
                     accountId := Some (acc_id ((case accounts session of Some a \<Rightarrow> a
                                                  | None \<Rightarrow> bot_accounts self) ! nat (k - 1))),
                     lastActivityAt := now\<rparr>),
                  None)"
    if "state session = SELECT_ACCOUNT"
      and "k \<le> int (length (case accounts session of Some a \<Rightarrow> a | None \<Rightarrow> bot_accounts self))"
  proof -
    have r: "indexInRange (Some (k - 1))
               (case accounts session of Some a \<Rightarrow> a | None \<Rightarrow> bot_accounts self)"
      using that(2) assms(3) by (simp add: indexInRange_def)
    show ?thesis
      unfolding d using that(1) r g assms(1,2)
      by (simp add: handleSelectAccount_def Let_def updateSession_Some)
  qed
  have B: "\<exists>reply sessions' params.
             handleMessage self env sessions userId message now = (reply, sessions', Some params)
             \<and> category_id params = cat_id (bot_categories self ! nat (k - 1))"
    if "state session = SELECT_CATEGORY" and "k \<le> int (length (bot_categories self))"
  proof -
    have r: "indexInRange (Some (k - 1)) (bot_categories self)"
      using that(2) assms(3) by (simp add: indexInRange_def)
    show ?thesis
      unfolding d using that(1) r g assms(2)
      by (auto simp: handleSelectCategory_def Let_def split: sum.splits)
  qed
  have C: "parseInt nm = Some k" if "toLowerCase nm = toLowerCase (trim message)" for nm
  proof -
    have "parseInt nm = parseInt (toLowerCase nm)"
      by (simp add: parseInt_toLowerCase)
    also have "\<dots> = parseInt (trim message)"
      unfolding that by (rule parseInt_toLowerCase)
    finally show ?thesis using assms(2) by simp
  qed
  from A B C show ?thesis by blast
qed

text \<open>
  On the example data: \<^verbatim>\<open>1st Bank\<close>, the name of the second account, selects the
  first account, and \<^verbatim>\<open>1abc\<close> submits the first category of the cache.
\<close>

theorem numeric_prefix_selects_entry_witness:
  "parseInt (trim ''1st Bank'') = Some 1
   \<and> fst (snd (handleMessage exBot exEnvOk [''u'' \<mapsto> exSelectAccount] ''u'' ''1st Bank'' 7)) =
       [''u'' \<mapsto> exSelectAccount\<lparr>state := ENTER_DETAILS, accountId := Some ''a-cash'',
                                  lastActivityAt := 7\<rparr>]
   \<and> parseInt (trim ''1abc'') = Some 1
   \<and> map_option category_id
         (snd (snd (handleMessage exBot exEnvOk [''u'' \<mapsto> exSelectCategory] ''u'' ''1abc'' 7))) =
       Some ''c-salary''
   \<and> toLowerCase (acc_name exBank) = toLowerCase (trim ''1st Bank'')
   \<and> parseInt (acc_name exBank) = Some 1"
proof -
  have a1: "[''u'' \<mapsto> exSelectAccount] ''u'' = Some exSelectAccount" by simp
  have a2: "parseInt (trim ''1st Bank'') = Some 1" by (simp add: string_defs)
  have a3: "state exSelectAccount = SELECT_ACCOUNT
      \<and> 1 \<le> int (length (case accounts exSelectAccount of Some a \<Rightarrow> a | None \<Rightarrow> bot_accounts exBot))"
    by (simp add: exSelectAccount_def)
  have a4: "acc_id ((case accounts exSelectAccount of Some a \<Rightarrow> a | None \<Rightarrow> bot_accounts exBot)
              ! nat (1 - 1)) = ''a-cash''"
    by (simp add: exSelectAccount_def exCash_def)
  have c1: "[''u'' \<mapsto> exSelectCategory] ''u'' = Some exSelectCategory" by simp
  have c2: "parseInt (trim ''1abc'') = Some 1" by (simp add: string_defs)
  have c3: "state exSelectCategory = SELECT_CATEGORY \<and> 1 \<le> int (length (bot_categories exBot))"
    by (simp add: exSelectCategory_def exBot_def)
  have c4: "cat_id (bot_categories exBot ! nat (1 - 1)) = ''c-salary''"
    by (simp add: exBot_def exSalary_def)
  from numeric_prefix_selects_entry
         [where sessions = "[''u'' \<mapsto> exSelectAccount]" and userId = "''u''"
            and session = exSelectAccount and self = exBot and env = exEnvOk and now = 7, OF a1 a2]
       a3 a4
  have A: "fst (snd (handleMessage exBot exEnvOk [''u'' \<mapsto> exSelectAccount] ''u'' ''1st Bank'' 7)) =
       [''u'' \<mapsto> exSelectAccount\<lparr>state := ENTER_DETAILS, accountId := Some ''a-cash'',
                                  lastActivityAt := 7\<rparr>]"
    by auto
  from numeric_prefix_selects_entry
         [where sessions = "[''u'' \<mapsto> exSelectCategory]" and userId = "''u''"
            and session = exSelectCategory and self = exBot and env = exEnvOk and now = 7, OF c1 c2]
       c3 c4
  have B: "map_option category_id
         (snd (snd (handleMessage exBot exEnvOk [''u'' \<mapsto> exSelectCategory] ''u'' ''1abc'' 7))) =
       Some ''c-salary''"
    by auto
  have n: "toLowerCase (acc_name exBank) = toLowerCase (trim ''1st Bank'')"
    by (simp add: exBank_def string_defs)
  from numeric_prefix_selects_entry
         [where sessions = "[''u'' \<mapsto> exSelectAccount]" and userId = "''u''"
            and session = exSelectAccount and self = exBot and env = exEnvOk and now = 7, OF a1 a2]
       n
  have C: "parseInt (acc_name exBank) = Some 1"
    by simp
  from a2 A c2 B n C show ?thesis by simp
qed

text \<open>
  Claim C10 as stated fails in its last clause. \<^verbatim>\<open>10 Downing\<close>, the second of two
  accounts, begins with the digit 1, and 1 is in range; the input \<^verbatim>\<open>10 downing\<close>
  parses to 10, which is out of range, so the name is compared and the account is
  selected by its name.
\<close>

theorem numeric_prefix_counterexample:
  "hd (acc_name exDowning) = CHR ''1''
   \<and> parseInt ''1'' = Some 1
   \<and> accounts exSelectDowning = Some [exCash, exDowning]
   \<and> parseInt (trim ''10 downing'') = Some 10
   \<and> fst (snd (handleMessage exBot exEnvOk [''u'' \<mapsto> exSelectDowning] ''u'' ''10 downing'' 7)) ''u'' =
       Some (exSelectDowning\<lparr>state := ENTER_DETAILS, accountId := Some ''a-downing'',
                              lastActivityAt := 7\<rparr>)"
  by (simp add: engine_defs string_defs example_defs)

section \<open>Properties of the parser\<close>

text \<open>
  What the members of a matcher's result are: a matcher returns exactly the ways to
  split the text into a matching prefix and the rest.
\<close>

lemma firstMatch_Some: "firstMatch ms = Some m \<Longrightarrow> m \<in> set ms"
  by (cases ms) (auto simp: firstMatch_def)

lemma firstMatch_None: "firstMatch ms = None \<longleftrightarrow> ms = []"
  by (cases ms) (auto simp: firstMatch_def)

lemma splits_take_iff:
  "(p, r) \<in> set (take n (splits P s)) \<longleftrightarrow>
     p \<noteq> [] \<and> length p \<le> n \<and> s = p @ r \<and> (\<forall>c \<in> set p. P c)"
proof (induction s arbitrary: n p)
  case Nil
  then show ?case by auto
next
  case (Cons x xs)
  show ?case
  proof (cases n)
    case 0
    then show ?thesis by auto
  next
    case (Suc k)
    show ?thesis
    proof (cases "P x")
      case False
      then show ?thesis by (auto simp: Cons_eq_append_conv)
    next
      case True
      have "(p, r) \<in> set (take n (splits P (x # xs))) \<longleftrightarrow>
            (p = [x] \<and> r = xs) \<or> (\<exists>q. p = x # q \<and> (q, r) \<in> set (take k (splits P xs)))"
        using True Suc by (auto simp: take_map)
      also have "\<dots> \<longleftrightarrow> p \<noteq> [] \<and> length p \<le> n \<and> x # xs = p @ r \<and> (\<forall>c \<in> set p. P c)"
        unfolding Cons.IH using True Suc by (cases p) (auto simp: Cons_eq_append_conv)
      finally show ?thesis .
    qed
  qed
qed

lemma splits_iff:
  "(p, r) \<in> set (splits P s) \<longleftrightarrow> p \<noteq> [] \<and> s = p @ r \<and> (\<forall>c \<in> set p. P c)"
proof -
  have "(p, r) \<in> set (splits P s) \<longleftrightarrow> (p, r) \<in> set (take (length (splits P s) + length s) (splits P s))"
    by simp
  also have "\<dots> \<longleftrightarrow> p \<noteq> [] \<and> length p \<le> length (splits P s) + length s \<and> s = p @ r \<and> (\<forall>c \<in> set p. P c)"
    by (rule splits_take_iff)
  also have "\<dots> \<longleftrightarrow> p \<noteq> [] \<and> s = p @ r \<and> (\<forall>c \<in> set p. P c)"
    by auto
  finally show ?thesis .
qed

lemma plusGreedy_iff:
  "(p, r) \<in> set (plusGreedy P s) \<longleftrightarrow> p \<noteq> [] \<and> s = p @ r \<and> (\<forall>c \<in> set p. P c)"
  by (simp add: plusGreedy_def splits_iff)

lemma plusLazy_iff:
  "(p, r) \<in> set (plusLazy P s) \<longleftrightarrow> p \<noteq> [] \<and> s = p @ r \<and> (\<forall>c \<in> set p. P c)"
  by (simp add: plusLazy_def splits_iff)

lemma oneOrTwo_iff:
  "(p, r) \<in> set (oneOrTwo P s) \<longleftrightarrow> p \<noteq> [] \<and> length p \<le> 2 \<and> s = p @ r \<and> (\<forall>c \<in> set p. P c)"
  by (simp add: oneOrTwo_def splits_take_iff)

lemma optChar_iff:
  "(a, r) \<in> set (optChar c s) \<longleftrightarrow> (a = [] \<and> r = s) \<or> (a = [c] \<and> s = c # r)"
  by (cases s) (auto simp: optChar_def)

lemma fraction_iff:
  "(f, r) \<in> set (fraction s) \<longleftrightarrow>
     (f = [] \<and> r = s) \<or>
     (\<exists>g. f = CHR ''.'' # g \<and> g \<noteq> [] \<and> length g \<le> 2 \<and> s = f @ r \<and> (\<forall>c \<in> set g. isDigit c))"
  by (cases s) (auto simp: fraction_def oneOrTwo_iff)

lemma digit_not_space: "isDigit c \<Longrightarrow> \<not> isWhiteSpace c"
  by (auto simp: isDigit_def isWhiteSpace_def)

lemma number_memD:
  assumes "(t, r) \<in> set (number d s)"
  obtains a r1 b r2 c r3 f where "(a, r1) \<in> set (if d then optChar (CHR ''$'') s else [([], s)])"
    and "(b, r2) \<in> set (optChar (CHR ''-'') r1)"
    and "(c, r3) \<in> set (plusGreedy isDigit r2)"
    and "(f, r) \<in> set (fraction r3)"
    and "t = a @ b @ c @ f"
proof -
  from assms obtain x xa xb p where "x \<in> set (if d then optChar (CHR ''$'') s else [([], s)])"
    and "xa \<in> set (optChar (CHR ''-'') (snd x))"
    and "xb \<in> set (plusGreedy isDigit (snd xa))"
    and "p \<in> set (fraction (snd xb))"
    and "t = fst x @ fst xa @ fst xb @ fst p" and "r = snd p"
    by (cases d) (auto simp: number_def split_def)
  then show thesis
    using that [of "fst x" "snd x" "fst xa" "snd xa" "fst xb" "snd xb" "fst p"] by simp
qed

lemma in_bind: "x \<in> set xs \<Longrightarrow> y \<in> set (f x) \<Longrightarrow> y \<in> set (concat (map f xs))"
  by auto

lemma number_memI:
  assumes "(a, r1) \<in> set (if d then optChar (CHR ''$'') s else [([], s)])"
    and "(b, r2) \<in> set (optChar (CHR ''-'') r1)"
    and "(c, r3) \<in> set (plusGreedy isDigit r2)"
    and "(f, r) \<in> set (fraction r3)"
  shows "(a @ b @ c @ f, r) \<in> set (number d s)"
  unfolding number_def
  apply (rule in_bind [OF assms(1)], simp only: prod.case)
  apply (rule in_bind [OF assms(2)], simp only: prod.case)
  apply (rule in_bind [OF assms(3)], simp only: prod.case)
  apply (simp only: set_map image_iff)
  apply (rule bexI [OF _ assms(4)])
  apply simp
  done


lemma number_sound:
  assumes "(t, r) \<in> set (number d s)"
  shows "s = t @ r \<and> t \<noteq> [] \<and> (\<forall>c \<in> set t. \<not> isWhiteSpace c) \<and> (\<not> d \<longrightarrow> hd t \<noteq> CHR ''$'')"
proof -
  from assms obtain a r1 b r2 c r3 f where x: "(a, r1) \<in> set (if d then optChar (CHR ''$'') s else [([], s)])"
    and xa: "(b, r2) \<in> set (optChar (CHR ''-'') r1)"
    and xb: "(c, r3) \<in> set (plusGreedy isDigit r2)"
    and p: "(f, r) \<in> set (fraction r3)"
    and t: "t = a @ b @ c @ f"
    by (rule number_memD)
  have a: "(a = [] \<or> (d \<and> a = ''$'')) \<and> s = a @ r1"
    using x by (auto simp: optChar_iff split: if_splits)
  have b: "(b = [] \<or> b = ''-'') \<and> r1 = b @ r2"
    using xa by (auto simp: optChar_iff)
  have c: "c \<noteq> [] \<and> (\<forall>x \<in> set c. isDigit x) \<and> r2 = c @ r3"
    using xb by (auto simp: plusGreedy_iff)
  have f: "(f = [] \<or> (\<exists>g. f = CHR ''.'' # g \<and> (\<forall>x \<in> set g. isDigit x))) \<and> r3 = f @ r"
    using p by (auto simp: fraction_iff)
  have 1: "\<forall>x \<in> set a. \<not> isWhiteSpace x" using a by (auto simp: isWhiteSpace_def)
  have 2: "\<forall>x \<in> set b. \<not> isWhiteSpace x" using b by (auto simp: isWhiteSpace_def)
  have 3: "\<forall>x \<in> set c. \<not> isWhiteSpace x" using c by (auto dest: digit_not_space)
  have dot: "\<not> isWhiteSpace (CHR ''.'')" by (simp add: isWhiteSpace_def)
  have 4: "\<forall>x \<in> set f. \<not> isWhiteSpace x" using f dot by (auto dest: digit_not_space)
  have 5: "hd t \<noteq> CHR ''$''" if "\<not> d"
  proof (cases "b = []")
    case True
    with that a c t have "hd t = hd c" by simp
    moreover have "isDigit (hd c)" using c by simp
    ultimately show ?thesis by (auto simp: isDigit_def)
  next
    case False
    with b that a t show ?thesis by auto
  qed
  have "s = t @ r" using a b c f t by simp
  moreover have "t \<noteq> []" using c t by simp
  moreover have "\<forall>x \<in> set t. \<not> isWhiteSpace x" using 1 2 3 4 t by auto
  ultimately show ?thesis using 5 by blast
qed

lemma number_complete:
  assumes "ip \<noteq> []" "\<forall>c \<in> set ip. isDigit c" "\<forall>c \<in> set fp. isDigit c" "length fp \<le> 2"
    and "dollar \<longrightarrow> d"
  shows "(amountText dollar neg ip fp, r) \<in> set (number d (amountText dollar neg ip fp @ r))"
proof -
  let ?a = "if dollar then ''$'' else []"
  let ?b = "if neg then ''-'' else []"
  let ?f = "if fp = [] then [] else CHR ''.'' # fp"
  have a: "(?a, ?b @ ip @ ?f @ r) \<in> set (if d then optChar (CHR ''$'') (?a @ ?b @ ip @ ?f @ r) else [([], ?a @ ?b @ ip @ ?f @ r)])"
    using assms(5) by (auto simp: optChar_iff)
  have b: "(?b, ip @ ?f @ r) \<in> set (optChar (CHR ''-'') (?b @ ip @ ?f @ r))"
    by (auto simp: optChar_iff)
  have c: "(ip, ?f @ r) \<in> set (plusGreedy isDigit (ip @ ?f @ r))"
    using assms(1,2) by (simp add: plusGreedy_iff)
  have f: "(?f, r) \<in> set (fraction (?f @ r))"
    using assms(3,4) by (auto simp: fraction_iff)
  have "(?a @ ?b @ ip @ ?f, r) \<in> set (number d (?a @ ?b @ ip @ ?f @ r))"
    using a b c f by (rule number_memI)
  then show ?thesis by (simp add: amountText_def)
qed

lemma number_False_eq:
  "number False s = (if s \<noteq> [] \<and> hd s = CHR ''$'' then [] else number True s)"
proof (cases s)
  case Nil
  then show ?thesis by (simp add: number_def optChar_def)
next
  case (Cons x r)
  show ?thesis
  proof (cases "x = CHR ''$''")
    case True
    then show ?thesis
      using Cons by (simp add: number_def optChar_def plusGreedy_def isDigit_def)
  next
    case False
    then show ?thesis
      using Cons by (simp add: number_def optChar_def)
  qed
qed

lemma amountFirst_False_eq:
  "amountFirst False s = (if s \<noteq> [] \<and> hd s = CHR ''$'' then None else amountFirst True s)"
  by (simp add: amountFirst_def number_False_eq firstMatch_def)

lemma firstMatch_mem: "m \<in> set ms \<Longrightarrow> firstMatch ms \<noteq> None"
  by (cases ms) (auto simp: firstMatch_def)

lemma amountFirst_memD:
  assumes "amountFirst d s = Some (g1, g2)"
  obtains w where "(g1, w @ g2) \<in> set (number d s)" and "w \<noteq> []" and "\<forall>c \<in> set w. isWhiteSpace c"
    and "g2 \<noteq> []" and "\<forall>c \<in> set g2. isDot c"
proof -
  from assms have "(g1, g2) \<in> set
       [(g1, g2).
          (g1, r1) \<leftarrow> number d s,
          (ws, r2) \<leftarrow> plusGreedy isWhiteSpace r1,
          (g2, r3) \<leftarrow> plusGreedy isDot r2,
          r3 = []]"
    unfolding amountFirst_def by (rule firstMatch_Some)
  then obtain r1 w r2 where "(g1, r1) \<in> set (number d s)" "(w, r2) \<in> set (plusGreedy isWhiteSpace r1)"
    "(g2, []) \<in> set (plusGreedy isDot r2)"
    by (auto split: if_splits)
  then show thesis
    using that [of w] by (auto simp: plusGreedy_iff)
qed

lemma amountFirst_memI:
  assumes "(g1, r1) \<in> set (number d s)" and "(w, r2) \<in> set (plusGreedy isWhiteSpace r1)"
    and "(g2, []) \<in> set (plusGreedy isDot r2)"
  shows "amountFirst d s \<noteq> None"
proof -
  have "(g1, g2) \<in> set
       [(g1, g2).
          (g1, r1) \<leftarrow> number d s,
          (ws, r2) \<leftarrow> plusGreedy isWhiteSpace r1,
          (g2, r3) \<leftarrow> plusGreedy isDot r2,
          r3 = []]"
    apply (rule in_bind [OF assms(1)], simp only: prod.case)
    apply (rule in_bind [OF assms(2)], simp only: prod.case)
    apply (rule in_bind [OF assms(3)], simp only: prod.case)
    apply simp
    done
  then show ?thesis
    unfolding amountFirst_def by (rule firstMatch_mem)
qed

lemma nameFirst_memD:
  assumes "nameFirst d s = Some (g1, g2)"
  obtains w where "s = g1 @ w @ g2" and "g1 \<noteq> []" and "\<forall>c \<in> set g1. isDot c"
    and "w \<noteq> []" and "\<forall>c \<in> set w. isWhiteSpace c" and "(g2, []) \<in> set (number d (g2))"
proof -
  from assms have "(g1, g2) \<in> set
       [(g1, g2).
          (g1, r1) \<leftarrow> plusLazy isDot s,
          (ws, r2) \<leftarrow> plusGreedy isWhiteSpace r1,
          (g2, r3) \<leftarrow> number d r2,
          r3 = []]"
    unfolding nameFirst_def by (rule firstMatch_Some)
  then obtain r1 w r2 where a: "(g1, r1) \<in> set (plusLazy isDot s)" "(w, r2) \<in> set (plusGreedy isWhiteSpace r1)"
    "(g2, []) \<in> set (number d r2)"
    by (auto split: if_splits)
  from a(3) have "r2 = g2" using number_sound by fastforce
  with a show thesis
    using that [of w] by (auto simp: plusGreedy_iff plusLazy_iff)
qed

lemma nameFirst_memI:
  assumes "(g1, r1) \<in> set (plusLazy isDot s)" and "(w, r2) \<in> set (plusGreedy isWhiteSpace r1)"
    and "(g2, []) \<in> set (number d r2)"
  shows "nameFirst d s \<noteq> None"
proof -
  have "(g1, g2) \<in> set
       [(g1, g2).
          (g1, r1) \<leftarrow> plusLazy isDot s,
          (ws, r2) \<leftarrow> plusGreedy isWhiteSpace r1,
          (g2, r3) \<leftarrow> number d r2,
          r3 = []]"
    apply (rule in_bind [OF assms(1)], simp only: prod.case)
    apply (rule in_bind [OF assms(2)], simp only: prod.case)
    apply (rule in_bind [OF assms(3)], simp only: prod.case)
    apply simp
    done
  then show ?thesis
    unfolding nameFirst_def by (rule firstMatch_mem)
qed

lemma tryPatterns_collapse: "tryPatterns toDouble [0, 1, 2, 3] v = tryPatterns toDouble [1, 2, 3] v"
proof (cases "amountFirst False v")
  case None
  then show ?thesis by (simp add: matchPattern_def)
next
  case (Some m)
  then have "amountFirst True v = Some m"
    by (simp add: amountFirst_False_eq split: if_splits)
  with Some show ?thesis
    by (cases m) (simp add: matchPattern_def Let_def)
qed

lemma dropWhile_hd: "xs \<noteq> [] \<Longrightarrow> \<not> P (hd xs) \<Longrightarrow> dropWhile P xs = xs"
  by (cases xs) auto

lemma trim_core:
  assumes "s \<noteq> []" "\<not> isWhiteSpace (hd s)" "\<not> isWhiteSpace (last s)"
    and "\<forall>c \<in> set pre. isWhiteSpace c" "\<forall>c \<in> set post. isWhiteSpace c"
  shows "trim (pre @ s @ post) = s"
proof -
  have "dropWhile isWhiteSpace (pre @ s @ post) = dropWhile isWhiteSpace (s @ post)"
    using assms(4) by (simp add: dropWhile_append2)
  also have "\<dots> = s @ post"
    using assms(1,2) by (intro dropWhile_hd) auto
  finally have 1: "dropWhile isWhiteSpace (pre @ s @ post) = s @ post" .
  have "dropWhile isWhiteSpace (rev post @ rev s) = dropWhile isWhiteSpace (rev s)"
    by (rule dropWhile_append2) (use assms(5) in auto)
  also have "\<dots> = rev s"
    using assms(1,3) by (intro dropWhile_hd) (auto simp: hd_rev)
  finally have 2: "dropWhile isWhiteSpace (rev post @ rev s) = rev s" .
  show ?thesis
    unfolding trim_def 1 by (simp add: 2)
qed

lemma trim_ws_prefix:
  assumes "\<forall>c \<in> set w. isWhiteSpace c"
  shows "trim (w @ s) = trim s"
  using assms by (simp add: trim_def)

lemma trim_ws_suffix:
  assumes "\<forall>c \<in> set w. isWhiteSpace c"
  shows "trim (s @ w) = trim s"
proof (cases "\<forall>c \<in> set s. isWhiteSpace c")
  case True
  have 1: "dropWhile isWhiteSpace (s @ w) = []"
    using True assms by auto
  have 2: "dropWhile isWhiteSpace s = []"
    using True by auto
  show ?thesis unfolding trim_def 1 2 by simp
next
  case False
  then have 1: "dropWhile isWhiteSpace (s @ w) = dropWhile isWhiteSpace s @ w"
    by (auto simp: dropWhile_append1)
  have 2: "dropWhile isWhiteSpace (rev w @ rev (dropWhile isWhiteSpace s)) =
           dropWhile isWhiteSpace (rev (dropWhile isWhiteSpace s))"
    by (rule dropWhile_append2) (use assms in auto)
  show ?thesis unfolding trim_def 1 by (simp add: 2)
qed

lemma ws_free_prefix_unique:
  assumes "a @ x # r = b @ y # r'" and "isWhiteSpace x" "isWhiteSpace y"
    and "\<forall>c \<in> set a. \<not> isWhiteSpace c" "\<forall>c \<in> set b. \<not> isWhiteSpace c"
  shows "a = b \<and> x # r = y # r'"
proof -
  have "takeWhile (\<lambda>c. \<not> isWhiteSpace c) (a @ x # r) = a"
    using assms(2,4) by (simp add: takeWhile_tail)
  moreover have "takeWhile (\<lambda>c. \<not> isWhiteSpace c) (b @ y # r') = b"
    using assms(3,5) by (simp add: takeWhile_tail)
  ultimately have "a = b" using assms(1) by simp
  with assms(1) show ?thesis by simp
qed

lemma ws_free_suffix_unique:
  assumes "r @ x # a = r' @ y # b" and "isWhiteSpace x" "isWhiteSpace y"
    and "\<forall>c \<in> set a. \<not> isWhiteSpace c" "\<forall>c \<in> set b. \<not> isWhiteSpace c"
  shows "a = b \<and> r @ [x] = r' @ [y]"
proof -
  from assms(1) have "rev (r @ x # a) = rev (r' @ y # b)" by simp
  then have "rev a @ x # rev r = rev b @ y # rev r'" by simp
  then have "rev a = rev b \<and> x # rev r = y # rev r'"
    using assms(2-5) by (intro ws_free_prefix_unique) auto
  then show ?thesis by auto
qed

lemma digit_facts:
  assumes "isDigit c"
  shows "\<not> isDangerous c" "c \<noteq> CHR ''$''" "c \<noteq> CHR '',''" "c \<noteq> CHR ''-''" "c \<noteq> CHR ''+''"
    "c \<noteq> CHR ''.''"
  using assms by (auto simp: isDigit_def isDangerous_def)

lemma amountText_set:
  "set (amountText dollar neg ip fp) \<subseteq> set ip \<union> set fp \<union> {CHR ''$'', CHR ''-'', CHR ''.''}"
  by (auto simp: amountText_def)

lemma amountText_ends:
  assumes "ip \<noteq> []" "\<forall>c \<in> set ip. isDigit c" "\<forall>c \<in> set fp. isDigit c"
  shows "amountText dollar neg ip fp \<noteq> []"
    and "\<not> isWhiteSpace (hd (amountText dollar neg ip fp))"
    and "\<not> isWhiteSpace (last (amountText dollar neg ip fp))"
    and "\<forall>c \<in> set (amountText dollar neg ip fp). \<not> isWhiteSpace c"
    and "\<forall>c \<in> set (amountText dollar neg ip fp). \<not> isDangerous c"
proof -
  have sp: "\<not> isWhiteSpace (CHR ''$'')" "\<not> isWhiteSpace (CHR ''-'')" "\<not> isWhiteSpace (CHR ''.'')"
    by (simp_all add: isWhiteSpace_def)
  have dg: "\<not> isDangerous (CHR ''$'')" "\<not> isDangerous (CHR ''-'')" "\<not> isDangerous (CHR ''.'')"
    by (simp_all add: isDangerous_def)
  show ne: "amountText dollar neg ip fp \<noteq> []" using assms(1) by (simp add: amountText_def)
  show ns: "\<forall>c \<in> set (amountText dollar neg ip fp). \<not> isWhiteSpace c"
  proof
    fix c assume "c \<in> set (amountText dollar neg ip fp)"
    then have "c \<in> set ip \<union> set fp \<union> {CHR ''$'', CHR ''-'', CHR ''.''}"
      using amountText_set by blast
    then show "\<not> isWhiteSpace c"
      using assms(2,3) sp digit_not_space by auto
  qed
  show "\<forall>c \<in> set (amountText dollar neg ip fp). \<not> isDangerous c"
  proof
    fix c assume "c \<in> set (amountText dollar neg ip fp)"
    then have "c \<in> set ip \<union> set fp \<union> {CHR ''$'', CHR ''-'', CHR ''.''}"
      using amountText_set by blast
    then show "\<not> isDangerous c"
      using assms(2,3) dg digit_facts(1) by auto
  qed
  show "\<not> isWhiteSpace (hd (amountText dollar neg ip fp))" using ne ns by simp
  show "\<not> isWhiteSpace (last (amountText dollar neg ip fp))" using ne ns by simp
qed

lemma amountStr_of_token:
  assumes "\<forall>c \<in> set ip. isDigit c" "\<forall>c \<in> set fp. isDigit c"
  shows "remove1 (CHR '','') (remove1 (CHR ''$'') (amountText dollar neg ip fp)) = amountText False neg ip fp"
proof -
  have sub: "set (amountText False neg ip fp) \<subseteq> set ip \<union> set fp \<union> {CHR ''-'', CHR ''.''}"
    by (auto simp: amountText_def)
  have nd: "CHR ''$'' \<notin> set (amountText False neg ip fp)"
    using sub assms digit_facts(2) by auto
  have nc: "CHR '','' \<notin> set (amountText False neg ip fp)"
    using sub assms digit_facts(3) by auto
  have "remove1 (CHR ''$'') (amountText dollar neg ip fp) = amountText False neg ip fp"
  proof (cases dollar)
    case True
    then have "amountText dollar neg ip fp = CHR ''$'' # amountText False neg ip fp"
      by (simp add: amountText_def)
    then show ?thesis by simp
  next
    case False
    then show ?thesis using nd by (simp add: remove1_idem)
  qed
  then show ?thesis using nc by (simp add: remove1_idem)
qed

text \<open>\<^verbatim>\<open>parseFloat\<close> on some texts, for every rounding.\<close>

lemma parseFloat_examples:
  "parseFloat toDouble '' 25.50'' = Number False (toDouble (51 / 2))"
  "parseFloat toDouble ''1.5e3x'' = Number False (toDouble 1500)"
  "parseFloat toDouble ''-.5'' = Number True (toDouble (1 / 2))"
  "parseFloat toDouble ''2e-2'' = Number False (toDouble (1 / 50))"
  "parseFloat toDouble ''-0'' = Number True (toDouble 0)"
  "parseFloat toDouble ''-Infinity'' = Number True Infinity"
  "parseFloat toDouble ''.'' = NaN"
  "parseFloat toDouble ''e5'' = NaN"
  by (code_simp; simp?)+

lemma digit_not_I: "isDigit c \<Longrightarrow> c \<noteq> CHR ''I''"
  by (auto simp: isDigit_def)

lemma exponentPart_Nil: "exponentPart [] = 0"
  by (simp add: exponentPart_def)

lemma scaleByPowerOfTen_0: "scaleByPowerOfTen v 0 = v"
  by (simp add: scaleByPowerOfTen_def)

text \<open>
  \<^verbatim>\<open>parseFloat\<close> on the text of an amount without its \<^verbatim>\<open>$\<close>: the sign bit is the
  minus sign, the magnitude is the rounded value of the digits.
\<close>

lemma parseFloat_amount:
  assumes "ip \<noteq> []" "\<forall>c \<in> set ip. isDigit c" "\<forall>c \<in> set fp. isDigit c"
  shows "parseFloat toDouble (amountText False neg ip fp) =
           Number neg (toDouble (decimalValue ip fp))"
proof -
  let ?u = "ip @ (if fp = [] then [] else CHR ''.'' # fp)"
  obtain d ds where ip: "ip = d # ds" using assms(1) by (cases ip) auto
  have d: "isDigit d" using assms(2) ip by simp
  then have dn: "\<not> isWhiteSpace d" "d \<noteq> CHR ''-''" "d \<noteq> CHR ''+''" "d \<noteq> CHR ''I''"
    using digit_not_space digit_facts(4,5) digit_not_I by simp_all
  have nw: "\<not> isWhiteSpace (CHR ''-'')" by (simp add: isWhiteSpace_def)
  have nd: "\<not> isDigit (CHR ''.'')" by (simp add: isDigit_def)
  have fpt: "takeWhile isDigit fp = fp" "dropWhile isDigit fp = []"
    using assms(3) by simp_all
  have tu: "takeWhile isDigit ?u = ip"
    using assms(2) nd by (simp add: takeWhile_tail)
  have du: "dropWhile isDigit ?u = (if fp = [] then [] else CHR ''.'' # fp)"
    using assms(2) nd by (simp add: dropWhile_append3)
  have inf: "take 8 ?u \<noteq> ''Infinity''"
    using ip dn(4) by auto
  have b: "decimalLiteral toDouble neg ?u = Number neg (toDouble (decimalValue ip fp))"
    unfolding decimalLiteral_def Let_def tu du
    using inf assms(1)
    by (simp add: fpt exponentPart_Nil scaleByPowerOfTen_0 decimalValue_def)
  have "parseFloat toDouble (amountText False neg ip fp) = decimalLiteral toDouble neg ?u"
  proof (cases neg)
    case True
    then have t: "amountText False neg ip fp = CHR ''-'' # ?u" by (simp add: amountText_def)
    show ?thesis
      unfolding t parseFloat_def using nw True by (simp add: Let_def)
  next
    case False
    then have t: "amountText False neg ip fp = ?u" by (simp add: amountText_def)
    have s1: "dropWhile isWhiteSpace ?u = ?u" "hd ?u = d" "?u \<noteq> []"
      using ip dn(1) by simp_all
    show ?thesis
      unfolding t parseFloat_def Let_def s1 using False dn(2,3) by simp
  qed
  with b show ?thesis by simp
qed

lemma tryPatterns_hit:
  assumes "matchPattern i v = Some (m1, m2)"
    and "parseFloat toDouble (remove1 (CHR '','') (remove1 (CHR ''$'') (if i = 2 \<or> i = 3 then m2 else m1))) =
           Number sg m"
    and "trim (if i = 2 \<or> i = 3 then m1 else m2) = nm" and "nm \<noteq> []" and "length nm \<le> 255"
  shows "tryPatterns toDouble (i # rest) v = Some \<lparr>pt_amount = Number False m, pt_name = nm\<rparr>"
  using assms by (auto simp: Let_def)

text \<open>Whatever the parser returns has its sign bit clear.\<close>

lemma tryPatterns_unsigned:
  "tryPatterns toDouble ps v = Some r \<Longrightarrow> \<exists>m. pt_amount r = Number False m"
proof (induction ps)
  case Nil
  then show ?case by simp
next
  case (Cons i ps)
  show ?case
  proof (cases "matchPattern i v")
    case None
    with Cons show ?thesis by simp
  next
    case (Some g)
    obtain m1 m2 where g: "g = (m1, m2)" by (cases g)
    let ?amt = "parseFloat toDouble (if i = 2 \<or> i = 3
                   then remove1 (CHR '','') (remove1 (CHR ''$'') m2)
                   else remove1 (CHR '','') (remove1 (CHR ''$'') m1))"
    let ?nm = "if i = 2 \<or> i = 3 then trim m1 else trim m2"
    show ?thesis
    proof (cases "?amt \<noteq> NaN \<and> length ?nm > 0 \<and> length ?nm \<le> 255")
      case True
      then have "tryPatterns toDouble (i # ps) v = Some \<lparr>pt_amount = Math_abs ?amt, pt_name = ?nm\<rparr>"
        using Some g by (simp add: Let_def)
      with Cons.prems have r: "pt_amount r = Math_abs ?amt" by auto
      from True obtain s m where "?amt = Number s m" by (cases ?amt) auto
      with r show ?thesis by simp
    next
      case False
      then have "tryPatterns toDouble (i # ps) v = tryPatterns toDouble ps v"
        using Some g by (auto simp: Let_def)
      with Cons show ?thesis by simp
    qed
  qed
qed

lemma parse_unsigned:
  assumes "parseTransactionDetails toDouble input = Some r"
  shows "\<exists>m. pt_amount r = Number False m"
proof (cases "validateInput input")
  case None
  with assms show ?thesis by (simp only: parseTransactionDetails_def option.case) simp
next
  case (Some v)
  with assms have "tryPatterns toDouble [0, 1, 2, 3] v = Some r"
    by (simp only: parseTransactionDetails_def option.case)
  then show ?thesis by (rule tryPatterns_unsigned)
qed

lemma space_not_dangerous: "isWhiteSpace c \<Longrightarrow> \<not> isDangerous c"
  by (auto simp: isWhiteSpace_def isDangerous_def)

lemma removeDangerous_id: "\<forall>c \<in> set s. \<not> isDangerous c \<Longrightarrow> removeDangerous s = s"
  by (simp add: removeDangerous_def)

lemma removeDangerous_append: "removeDangerous (s @ t) = removeDangerous s @ removeDangerous t"
  by (simp add: removeDangerous_def)

lemma removeDangerous_set: "set (removeDangerous s) \<subseteq> set s"
  by (auto simp: removeDangerous_def)

lemma removeDangerous_length: "length (removeDangerous s) \<le> length s"
  by (simp add: removeDangerous_def)

lemma trim_Nil: "trim [] = []"
  by (simp add: trim_def)

lemma validateInput_core:
  assumes "v \<noteq> []" "\<not> isWhiteSpace (hd v)" "\<not> isWhiteSpace (last v)"
    and "\<forall>c \<in> set pre. isWhiteSpace c" "\<forall>c \<in> set post. isWhiteSpace c"
    and "removeDangerous v \<noteq> []" and "length v \<le> 500"
  shows "validateInput (pre @ v @ post) = Some (removeDangerous v)"
proof -
  have t: "trim (pre @ v @ post) = v"
    using assms(1-5) by (rule trim_core)
  show ?thesis
    using assms(1,6,7) by (simp add: validateInput_def Let_def t)
qed

text \<open>
  The amount-first pattern on an amount, white space and a text without line
  terminator: the first group is the amount, the second group trims to what the
  text trims to.
\<close>

lemma amountFirst_shape:
  assumes ip: "ip \<noteq> []" "\<forall>c \<in> set ip. isDigit c" and fp: "\<forall>c \<in> set fp. isDigit c" "length fp \<le> 2"
    and ws: "ws \<noteq> []" "\<forall>c \<in> set ws. isWhiteSpace c"
    and nm: "nm \<noteq> []" "\<forall>c \<in> set nm. \<not> isLineTerminator c"
  shows "\<exists>g2. amountFirst True (amountText dollar neg ip fp @ ws @ nm) =
            Some (amountText dollar neg ip fp, g2) \<and> trim g2 = trim nm"
proof -
  let ?tok = "amountText dollar neg ip fp"
  let ?v = "?tok @ ws @ nm"
  have tokns: "\<forall>c \<in> set ?tok. \<not> isWhiteSpace c"
    using ip fp(1) by (rule amountText_ends)
  have 1: "(?tok, ws @ nm) \<in> set (number True (?tok @ ws @ nm))"
    using ip fp by (intro number_complete) auto
  have 2: "(ws, nm) \<in> set (plusGreedy isWhiteSpace (ws @ nm))"
    using ws by (simp add: plusGreedy_iff)
  have 3: "(nm, []) \<in> set (plusGreedy isDot nm)"
    using nm by (simp add: plusGreedy_iff isDot_def)
  have "amountFirst True ?v \<noteq> None"
    using 1 2 3 by (rule amountFirst_memI)
  then obtain g1 g2 where m: "amountFirst True ?v = Some (g1, g2)"
    by (cases "amountFirst True ?v") auto
  then obtain w where w: "(g1, w @ g2) \<in> set (number True ?v)" "w \<noteq> []"
      "\<forall>c \<in> set w. isWhiteSpace c" "g2 \<noteq> []"
    by (rule amountFirst_memD)
  from number_sound [OF w(1)] have g1: "?v = g1 @ w @ g2" "\<forall>c \<in> set g1. \<not> isWhiteSpace c"
    by simp_all
  obtain x ws' where wsx: "ws = x # ws'" using ws(1) by (cases ws) auto
  obtain y w' where wy: "w = y # w'" using w(2) by (cases w) auto
  have "?tok @ x # (ws' @ nm) = g1 @ y # (w' @ g2)"
    using g1(1) wsx wy by simp
  moreover have "isWhiteSpace x" "isWhiteSpace y" using ws(2) w(3) wsx wy by simp_all
  ultimately have eq: "?tok = g1 \<and> x # (ws' @ nm) = y # (w' @ g2)"
    using tokns g1(2) by (intro ws_free_prefix_unique)
  then have "ws @ nm = w @ g2" using wsx wy by simp
  then have "trim (w @ g2) = trim (ws @ nm)" by simp
  moreover have "trim (w @ g2) = trim g2" using w(3) by (rule trim_ws_prefix)
  moreover have "trim (ws @ nm) = trim nm" using ws(2) by (rule trim_ws_prefix)
  ultimately have "trim g2 = trim nm" by simp
  with m eq show ?thesis by simp
qed

text \<open>
  The name-first patterns on a text without line terminator, white space and an
  amount: the pattern with \<^verbatim>\<open>\$?\<close> matches; whenever one of the two matches, its second
  group is the amount and its first group trims to what the text trims to.
\<close>

lemma nameFirst_shape:
  assumes ip: "ip \<noteq> []" "\<forall>c \<in> set ip. isDigit c" and fp: "\<forall>c \<in> set fp. isDigit c" "length fp \<le> 2"
    and ws: "ws \<noteq> []" "\<forall>c \<in> set ws. isWhiteSpace c"
    and nm: "nm \<noteq> []" "\<forall>c \<in> set nm. \<not> isLineTerminator c"
  shows "(\<exists>g1. nameFirst True (nm @ ws @ amountText dollar neg ip fp) =
            Some (g1, amountText dollar neg ip fp) \<and> trim g1 = trim nm)
       \<and> (nameFirst False (nm @ ws @ amountText dollar neg ip fp) = None
          \<or> (\<exists>g1. nameFirst False (nm @ ws @ amountText dollar neg ip fp) =
                Some (g1, amountText dollar neg ip fp) \<and> trim g1 = trim nm))"
proof -
  let ?tok = "amountText dollar neg ip fp"
  let ?v = "nm @ ws @ ?tok"
  have tokns: "\<forall>c \<in> set ?tok. \<not> isWhiteSpace c"
    using ip fp(1) by (rule amountText_ends)
  have sound: "g2 = ?tok \<and> trim g1 = trim nm" if m: "nameFirst d ?v = Some (g1, g2)" for d g1 g2
  proof -
    from m obtain w where w: "?v = g1 @ w @ g2" "w \<noteq> []" "\<forall>c \<in> set w. isWhiteSpace c"
      "(g2, []) \<in> set (number d g2)"
      by (rule nameFirst_memD)
    from number_sound [OF w(4)] have g2: "\<forall>c \<in> set g2. \<not> isWhiteSpace c" by simp
    have "(nm @ butlast ws) @ last ws # ?tok = (g1 @ butlast w) @ last w # g2"
      using w(1,2) ws(1) by (metis append.assoc append_butlast_last_id append_Cons append_Nil)
    moreover have "isWhiteSpace (last ws)" "isWhiteSpace (last w)"
      using ws w(2,3) by simp_all
    ultimately have eq: "?tok = g2 \<and> (nm @ butlast ws) @ [last ws] = (g1 @ butlast w) @ [last w]"
      using tokns g2 by (intro ws_free_suffix_unique)
    then have "nm @ ws = g1 @ w" using ws(1) w(2) by simp
    then have "trim (g1 @ w) = trim (nm @ ws)" by simp
    moreover have "trim (g1 @ w) = trim g1" using w(3) by (rule trim_ws_suffix)
    moreover have "trim (nm @ ws) = trim nm" using ws(2) by (rule trim_ws_suffix)
    ultimately show ?thesis using eq by simp
  qed
  have 1: "(nm, ws @ ?tok) \<in> set (plusLazy isDot ?v)"
    using nm by (simp add: plusLazy_iff isDot_def)
  have 2: "(ws, ?tok) \<in> set (plusGreedy isWhiteSpace (ws @ ?tok))"
    using ws by (simp add: plusGreedy_iff)
  have 3: "(?tok, []) \<in> set (number True ?tok)"
    using number_complete [OF ip fp, of dollar True neg "[]"] by simp
  have "nameFirst True ?v \<noteq> None"
    using 1 2 3 by (rule nameFirst_memI)
  then obtain g1 g2 where "nameFirst True ?v = Some (g1, g2)"
    by (cases "nameFirst True ?v") auto
  with sound [of True g1 g2]
  have A: "\<exists>g1. nameFirst True ?v = Some (g1, ?tok) \<and> trim g1 = trim nm"
    by simp
  have B: "nameFirst False ?v = None
      \<or> (\<exists>g1. nameFirst False ?v = Some (g1, ?tok) \<and> trim g1 = trim nm)"
  proof (cases "nameFirst False ?v")
    case None
    then show ?thesis by simp
  next
    case (Some m)
    then obtain g1 g2 where "nameFirst False ?v = Some (g1, g2)" by (cases m) auto
    with sound [of False g1 g2] show ?thesis by simp
  qed
  from A B show ?thesis by blast
qed

lemma number_last_digit:
  assumes "(t, r) \<in> set (number d s)"
  shows "isDigit (last t)"
proof -
  from assms obtain a r1 b r2 c r3 f where
    xb: "(c, r3) \<in> set (plusGreedy isDigit r2)"
    and p: "(f, r) \<in> set (fraction r3)"
    and t: "t = a @ b @ c @ f"
    by (rule number_memD)
  have c: "c \<noteq> []" "\<forall>x \<in> set c. isDigit x"
    using xb by (auto simp: plusGreedy_iff)
  from p consider "f = []" | g where "f = CHR ''.'' # g" "g \<noteq> []" "\<forall>x \<in> set g. isDigit x"
    by (auto simp: fraction_iff)
  then show ?thesis
  proof cases
    case 1
    then have "last t = last c" using t c(1) by simp
    then show ?thesis using c by simp
  next
    case 2
    then have "last t = last g" using t by simp
    then show ?thesis using 2 by simp
  qed
qed

lemma nameFirst_needs_final_digit:
  assumes "v \<noteq> []" and "\<not> isDigit (last v)"
  shows "nameFirst d v = None"
proof (cases "nameFirst d v")
  case None
  then show ?thesis .
next
  case (Some m)
  obtain g1 g2 where "m = (g1, g2)" by (cases m)
  with Some have "nameFirst d v = Some (g1, g2)" by simp
  then obtain w where w: "v = g1 @ w @ g2" "(g2, []) \<in> set (number d g2)"
    by (rule nameFirst_memD)
  from number_sound [OF w(2)] have "g2 \<noteq> []" by simp
  with w(1) have "last v = last g2" by simp
  with number_last_digit [OF w(2)] assms(2) show ?thesis by simp
qed

text \<open>
  What \<^verbatim>\<open>validateInput\<close> returns on the two shapes of line: the white space around
  the line is gone and the five characters are deleted from the name.
\<close>

lemma validateInput_amount_name:
  assumes ip: "ip \<noteq> []" "\<forall>c \<in> set ip. isDigit c" and fp: "\<forall>c \<in> set fp. isDigit c"
    and ws: "\<forall>c \<in> set ws. isWhiteSpace c"
    and pre: "\<forall>c \<in> set pre. isWhiteSpace c" and post: "\<forall>c \<in> set post. isWhiteSpace c"
    and nm: "nm \<noteq> []" "\<not> isWhiteSpace (hd nm)" "\<not> isWhiteSpace (last nm)"
    and len: "length (amountText dollar neg ip fp) + length ws + length nm \<le> 500"
  shows "validateInput (pre @ amountText dollar neg ip fp @ ws @ nm @ post) =
           Some (amountText dollar neg ip fp @ ws @ removeDangerous nm)"
    and "validateInput (pre @ nm @ ws @ amountText dollar neg ip fp @ post) =
           Some (removeDangerous nm @ ws @ amountText dollar neg ip fp)"
proof -
  let ?tok = "amountText dollar neg ip fp"
  have tok: "?tok \<noteq> []" "\<not> isWhiteSpace (hd ?tok)" "\<not> isWhiteSpace (last ?tok)"
    "\<forall>c \<in> set ?tok. \<not> isDangerous c"
    using amountText_ends [OF ip fp] by simp_all
  have rt: "removeDangerous ?tok = ?tok"
    using tok(4) by (rule removeDangerous_id)
  have rw: "removeDangerous ws = ws"
    using ws space_not_dangerous by (intro removeDangerous_id) blast
  have "validateInput (pre @ (?tok @ ws @ nm) @ post) = Some (removeDangerous (?tok @ ws @ nm))"
  proof (rule validateInput_core)
    show "?tok @ ws @ nm \<noteq> []" using tok(1) by simp
    show "\<not> isWhiteSpace (hd (?tok @ ws @ nm))" using tok(1,2) by simp
    show "\<not> isWhiteSpace (last (?tok @ ws @ nm))" using nm(1,3) by simp
    show "removeDangerous (?tok @ ws @ nm) \<noteq> []"
      using tok(1) by (simp add: removeDangerous_append rt)
    show "length (?tok @ ws @ nm) \<le> 500" using len by simp
  qed (rule pre, rule post)
  then show "validateInput (pre @ ?tok @ ws @ nm @ post) = Some (?tok @ ws @ removeDangerous nm)"
    by (simp add: removeDangerous_append rt rw)
  have "validateInput (pre @ (nm @ ws @ ?tok) @ post) = Some (removeDangerous (nm @ ws @ ?tok))"
  proof (rule validateInput_core)
    show "nm @ ws @ ?tok \<noteq> []" using tok(1) by simp
    show "\<not> isWhiteSpace (hd (nm @ ws @ ?tok))" using nm(1,2) by simp
    show "\<not> isWhiteSpace (last (nm @ ws @ ?tok))" using tok(1,3) by simp
    show "removeDangerous (nm @ ws @ ?tok) \<noteq> []"
      using tok(1) by (simp add: removeDangerous_append rt)
    show "length (nm @ ws @ ?tok) \<le> 500" using len by simp
  qed (rule pre, rule post)
  then show "validateInput (pre @ nm @ ws @ ?tok @ post) = Some (removeDangerous nm @ ws @ ?tok)"
    by (simp add: removeDangerous_append rt rw)
qed

text \<open>An amount followed by a name of more than 255 characters is not parsed.\<close>

lemma parse_long_name:
  assumes ip: "ip \<noteq> []" "\<forall>c \<in> set ip. isDigit c"
    and fp: "\<forall>c \<in> set fp. isDigit c" "length fp \<le> 2"
    and ws: "ws \<noteq> []" "\<forall>c \<in> set ws. isWhiteSpace c"
    and nm: "nm \<noteq> []" "\<not> isWhiteSpace (hd nm)" "\<not> isWhiteSpace (last nm)"
    and nlt: "\<forall>c \<in> set nm. \<not> isLineTerminator c"
    and nd: "\<forall>c \<in> set nm. \<not> isDangerous c"
    and long: "255 < length nm" and last: "\<not> isDigit (last nm)"
    and len: "length (amountText dollar neg ip fp) + length ws + length nm \<le> 500"
  shows "parseTransactionDetails toDouble (amountText dollar neg ip fp @ ws @ nm) = None"
proof -
  let ?tok = "amountText dollar neg ip fp"
  let ?v = "?tok @ ws @ nm"
  have rn: "removeDangerous nm = nm" using nd by (rule removeDangerous_id)
  have "validateInput ([] @ ?tok @ ws @ nm @ []) = Some (?tok @ ws @ removeDangerous nm)"
    using ip fp(1) ws(2) _ _ nm len by (rule validateInput_amount_name) simp_all
  then have v: "validateInput ?v = Some ?v" by (simp add: rn)
  have tn: "trim nm = nm"
    using trim_core [OF nm, of "[]" "[]"] by simp
  from amountFirst_shape [OF ip fp ws nm(1) nlt, of dollar neg]
  obtain g2 where m: "amountFirst True ?v = Some (?tok, g2)" and g2: "trim g2 = nm"
    using tn by auto
  have nf: "nameFirst d ?v = None" for d
    using nm(1) last by (intro nameFirst_needs_final_digit) auto
  have "parseTransactionDetails toDouble ?v = tryPatterns toDouble [0, 1, 2, 3] ?v"
    by (simp only: parseTransactionDetails_def v option.case)
  also have "\<dots> = tryPatterns toDouble (1 # [2, 3]) ?v"
    by (rule tryPatterns_collapse)
  also have "\<dots> = tryPatterns toDouble (2 # [3]) ?v"
    using m g2 long by (simp add: matchPattern_def Let_def)
  also have "\<dots> = tryPatterns toDouble (3 # []) ?v"
    using nf [of False] by (simp add: matchPattern_def)
  also have "\<dots> = None"
    using nf [of True] by (simp add: matchPattern_def)
  finally show ?thesis .
qed

lemma long_name_rejected:
  "parseTransactionDetails toDouble (''5 '' @ replicate 256 (CHR ''a'')) = None"
proof -
  have h: "''5'' \<noteq> []" "\<forall>c \<in> set ''5''. isDigit c" "\<forall>c \<in> set []. isDigit c"
    "length ([] :: string) \<le> 2" "'' '' \<noteq> []" "\<forall>c \<in> set '' ''. isWhiteSpace c"
    by (simp_all add: isDigit_def isWhiteSpace_def)
  have n: "replicate 256 (CHR ''a'') \<noteq> []"
    "\<not> isWhiteSpace (hd (replicate 256 (CHR ''a'')))"
    "\<not> isWhiteSpace (last (replicate 256 (CHR ''a'')))"
    "\<forall>c \<in> set (replicate 256 (CHR ''a'')). \<not> isLineTerminator c"
    "\<forall>c \<in> set (replicate 256 (CHR ''a'')). \<not> isDangerous c"
    "255 < length (replicate 256 (CHR ''a''))"
    "\<not> isDigit (last (replicate 256 (CHR ''a'')))"
    "length (amountText False False ''5'' []) + length '' '' + length (replicate 256 (CHR ''a'')) \<le> 500"
    by (simp_all add: isWhiteSpace_def isLineTerminator_def isDangerous_def isDigit_def amountText_def
        hd_replicate last_replicate)
  from parse_long_name [OF h n, of toDouble] show ?thesis
    by (simp add: amountText_def)
qed

text \<open>
  Claim C5, as the code has it. Take an amount (an optional \<^verbatim>\<open>$\<close>, an optional minus
  sign, digits \<open>ip\<close>, and optionally a point with one or two digits \<open>fp\<close>), white
  space \<open>ws\<close>, and a name \<open>nm\<close> that is not empty, has no white space at either end and
  no line terminator; let the line without the white space around it have at most
  500 characters. The parser deletes every \<^verbatim>\<open>< > " ' `\<close> from the name (what is
  left is \<open>cleaned\<close>) and trims it; let this be not empty and at most 255 characters
  long. Then:

  \<^item> for the line amount, white space, name, with any white space \<open>pre\<close> and \<open>post\<close>
    around it, the parser returns the name with the five characters deleted, trimmed,
    and as amount the number with the sign bit clear whose magnitude is the rounding
    of the value of the digits (with the rounding of JavaScript: the nearest double,
    \<^verbatim>\<open>Infinity\<close> beyond the range of doubles);

  \<^item> for the line name, white space, amount it returns the same, provided the line
    after the deletion does not also match the amount-first pattern, which is tried
    first;

  \<^item> this is the absolute value of what \<^verbatim>\<open>parseFloat\<close> reads from the amount
    without its \<^verbatim>\<open>$\<close>, whose sign bit is the minus sign;

  \<^item> on every input, whatever the parser returns has its sign bit clear and is not
    \<^verbatim>\<open>NaN\<close>: the sign of the amount never appears in the result.
\<close>

theorem parse_well_formed:
  assumes ip: "ip \<noteq> []" "\<forall>c \<in> set ip. isDigit c"
    and fp: "\<forall>c \<in> set fp. isDigit c" "length fp \<le> 2"
    and ws: "ws \<noteq> []" "\<forall>c \<in> set ws. isWhiteSpace c"
    and pre: "\<forall>c \<in> set pre. isWhiteSpace c"
    and post: "\<forall>c \<in> set post. isWhiteSpace c"
    and nm: "nm \<noteq> []" "\<not> isWhiteSpace (hd nm)" "\<not> isWhiteSpace (last nm)"
    and nlt: "\<forall>c \<in> set nm. \<not> isLineTerminator c"
    and cleaned: "cleaned = filter (\<lambda>c. c \<notin> {CHR ''<'', CHR ''>'', CHR 0x22, CHR 0x27, CHR 0x60}) nm"
    and clean: "trim cleaned \<noteq> []" "length (trim cleaned) \<le> 255"
    and len: "length (amountText dollar neg ip fp) + length ws + length nm \<le> 500"
  shows "parseTransactionDetails toDouble (pre @ amountText dollar neg ip fp @ ws @ nm @ post) =
           Some \<lparr>pt_amount = Number False (toDouble (decimalValue ip fp)), pt_name = trim cleaned\<rparr>
       \<and> (amountFirst True (cleaned @ ws @ amountText dollar neg ip fp) = None \<longrightarrow>
            parseTransactionDetails toDouble (pre @ nm @ ws @ amountText dollar neg ip fp @ post) =
              Some \<lparr>pt_amount = Number False (toDouble (decimalValue ip fp)), pt_name = trim cleaned\<rparr>)
       \<and> parseFloat toDouble (amountText False neg ip fp) = Number neg (toDouble (decimalValue ip fp))
       \<and> (\<forall>input r. parseTransactionDetails toDouble input = Some r \<longrightarrow>
             (\<exists>m. pt_amount r = Number False m))"
proof -
  let ?tok = "amountText dollar neg ip fp"
  let ?res = "Some \<lparr>pt_amount = Number False (toDouble (decimalValue ip fp)), pt_name = trim cleaned\<rparr>"
  have "(\<lambda>c. c \<notin> {CHR ''<'', CHR ''>'', CHR 0x22, CHR 0x27, CHR 0x60}) = (\<lambda>c. \<not> isDangerous c)"
    by (auto simp: isDangerous_def)
  then have rd: "removeDangerous nm = cleaned"
    by (simp add: removeDangerous_def cleaned)
  have cn: "cleaned \<noteq> []" using clean(1) trim_Nil by auto
  have clt: "\<forall>c \<in> set cleaned. \<not> isLineTerminator c"
    using nlt cleaned by simp
  have am: "parseFloat toDouble (amountText False neg ip fp) = Number neg (toDouble (decimalValue ip fp))"
    using ip fp(1) by (rule parseFloat_amount)
  have pf: "parseFloat toDouble (remove1 (CHR '','') (remove1 (CHR ''$'') ?tok)) =
      Number neg (toDouble (decimalValue ip fp))"
    using am amountStr_of_token [OF ip(2) fp(1)] by simp
  have A: "parseTransactionDetails toDouble (pre @ ?tok @ ws @ nm @ post) = ?res"
  proof -
    let ?v = "?tok @ ws @ cleaned"
    have v: "validateInput (pre @ ?tok @ ws @ nm @ post) = Some ?v"
      using validateInput_amount_name(1) [OF ip fp(1) ws(2) pre post nm len] by (simp add: rd)
    from amountFirst_shape [OF ip fp ws cn clt, of dollar neg]
    obtain g2 where m: "amountFirst True ?v = Some (?tok, g2)" and g2: "trim g2 = trim cleaned"
      by blast
    have hit: "tryPatterns toDouble (1 # [2, 3]) ?v = ?res"
    proof (rule tryPatterns_hit)
      show "matchPattern 1 ?v = Some (?tok, g2)" using m by (simp add: matchPattern_def)
      show "parseFloat toDouble (remove1 (CHR '','') (remove1 (CHR ''$'')
              (if (1::nat) = 2 \<or> (1::nat) = 3 then g2 else ?tok))) =
            Number neg (toDouble (decimalValue ip fp))"
        using pf by simp
      show "trim (if (1::nat) = 2 \<or> (1::nat) = 3 then ?tok else g2) = trim cleaned" using g2 by simp
    qed (rule clean(1), rule clean(2))
    have "parseTransactionDetails toDouble (pre @ ?tok @ ws @ nm @ post) = tryPatterns toDouble [0, 1, 2, 3] ?v"
      by (simp only: parseTransactionDetails_def v option.case)
    also have "\<dots> = tryPatterns toDouble [1, 2, 3] ?v"
      by (rule tryPatterns_collapse)
    finally show ?thesis using hit by simp
  qed
  have B: "parseTransactionDetails toDouble (pre @ nm @ ws @ ?tok @ post) = ?res"
    if none: "amountFirst True (cleaned @ ws @ ?tok) = None"
  proof -
    let ?v = "cleaned @ ws @ ?tok"
    have v: "validateInput (pre @ nm @ ws @ ?tok @ post) = Some ?v"
      using validateInput_amount_name(2) [OF ip fp(1) ws(2) pre post nm len] by (simp add: rd)
    from nameFirst_shape [OF ip fp ws cn clt, of dollar neg]
    obtain g1 where m3: "nameFirst True ?v = Some (g1, ?tok)" and g1: "trim g1 = trim cleaned"
      and m2: "nameFirst False ?v = None \<or>
               (\<exists>h1. nameFirst False ?v = Some (h1, ?tok) \<and> trim h1 = trim cleaned)"
      by blast
    have hit3: "tryPatterns toDouble (3 # []) ?v = ?res"
    proof (rule tryPatterns_hit)
      show "matchPattern 3 ?v = Some (g1, ?tok)" using m3 by (simp add: matchPattern_def)
      show "parseFloat toDouble (remove1 (CHR '','') (remove1 (CHR ''$'')
              (if (3::nat) = 2 \<or> (3::nat) = 3 then ?tok else g1))) =
            Number neg (toDouble (decimalValue ip fp))"
        using pf by simp
      show "trim (if (3::nat) = 2 \<or> (3::nat) = 3 then g1 else ?tok) = trim cleaned" using g1 by simp
    qed (rule clean(1), rule clean(2))
    have hit2: "tryPatterns toDouble (2 # [3]) ?v = ?res"
    proof (cases "nameFirst False ?v")
      case None
      then show ?thesis using hit3 by (simp add: matchPattern_def)
    next
      case (Some m)
      with m2 obtain h1 where h: "nameFirst False ?v = Some (h1, ?tok)" "trim h1 = trim cleaned"
        by auto
      show ?thesis
      proof (rule tryPatterns_hit)
        show "matchPattern 2 ?v = Some (h1, ?tok)" using h(1) by (simp add: matchPattern_def)
        show "parseFloat toDouble (remove1 (CHR '','') (remove1 (CHR ''$'')
                (if (2::nat) = 2 \<or> (2::nat) = 3 then ?tok else h1))) =
              Number neg (toDouble (decimalValue ip fp))"
          using pf by simp
        show "trim (if (2::nat) = 2 \<or> (2::nat) = 3 then h1 else ?tok) = trim cleaned" using h(2) by simp
      qed (rule clean(1), rule clean(2))
    qed
    have "parseTransactionDetails toDouble (pre @ nm @ ws @ ?tok @ post) = tryPatterns toDouble [0, 1, 2, 3] ?v"
      by (simp only: parseTransactionDetails_def v option.case)
    also have "\<dots> = tryPatterns toDouble [1, 2, 3] ?v"
      by (rule tryPatterns_collapse)
    also have "\<dots> = tryPatterns toDouble [2, 3] ?v"
      using none by (simp add: matchPattern_def)
    finally show ?thesis using hit2 by simp
  qed
  have C: "\<forall>input r. parseTransactionDetails toDouble input = Some r \<longrightarrow>
             (\<exists>m. pt_amount r = Number False m)"
    using parse_unsigned by blast
  from A B am C show ?thesis by blast
qed

text \<open>
  The theorem on the amount \<^verbatim>\<open>$-25.50\<close> and a name with an apostrophe, in both
  orders, between a no-break space and a space, for every rounding: the apostrophe is
  deleted and the minus sign is gone.
\<close>

theorem parse_well_formed_witness:
  "\<forall>toDouble.
     amountText True True ''25'' ''50'' = ''$-25.50''
   \<and> decimalValue ''25'' ''50'' = 51 / 2
   \<and> parseTransactionDetails toDouble (CHR 0xA0 # ''$-25.50 Joe'' @ [CHR 0x27] @ ''s '') =
       Some \<lparr>pt_amount = Number False (toDouble (51 / 2)), pt_name = ''Joes''\<rparr>
   \<and> amountFirst True ''Joes $-25.50'' = None
   \<and> parseTransactionDetails toDouble (CHR 0xA0 # ''Joe'' @ [CHR 0x27] @ ''s $-25.50 '') =
       Some \<lparr>pt_amount = Number False (toDouble (51 / 2)), pt_name = ''Joes''\<rparr>
   \<and> parseFloat toDouble ''-25.50'' = Number True (toDouble (51 / 2))"
proof
  fix toDouble :: "rat \<Rightarrow> magnitude"
  let ?nm = "''Joe'' @ [CHR 0x27] @ ''s''"
  have t: "amountText True True ''25'' ''50'' = ''$-25.50''"
      "amountText False True ''25'' ''50'' = ''-25.50''"
    by (simp_all add: amountText_def)
  have a: "decimalValue ''25'' ''50'' = 51 / 2"
    by (simp add: decimalValue_def digitsValue_def digitValue_def toLowerChar_def
        upperLetters_def lowerLetters_def)
  have r: "''Joes'' = filter (\<lambda>c. c \<notin> {CHR ''<'', CHR ''>'', CHR 0x22, CHR 0x27, CHR 0x60}) ?nm"
    by simp
  have tj: "trim ''Joes'' = ''Joes''"
    by (simp add: trim_def isWhiteSpace_def)
  have n: "amountFirst True ''Joes $-25.50'' = None"
    by code_simp
  have h1: "''25'' \<noteq> []" "\<forall>c \<in> set ''25''. isDigit c" "\<forall>c \<in> set ''50''. isDigit c"
    "length ''50'' \<le> 2" "'' '' \<noteq> []" "\<forall>c \<in> set '' ''. isWhiteSpace c"
    "\<forall>c \<in> set [CHR 0xA0]. isWhiteSpace c" "\<forall>c \<in> set '' ''. isWhiteSpace c"
    by (simp_all add: isDigit_def isWhiteSpace_def)
  have h2: "?nm \<noteq> []" "\<not> isWhiteSpace (hd ?nm)" "\<not> isWhiteSpace (last ?nm)"
    "\<forall>c \<in> set ?nm. \<not> isLineTerminator c"
    by (simp_all add: isWhiteSpace_def isLineTerminator_def)
  have h3: "trim ''Joes'' \<noteq> []" "length (trim ''Joes'') \<le> 255"
    "length (amountText True True ''25'' ''50'') + length '' '' + length ?nm \<le> 500"
    unfolding tj by (simp_all add: amountText_def)
  from parse_well_formed [OF h1 h2 r h3, of toDouble] n t a tj
  show "amountText True True ''25'' ''50'' = ''$-25.50''
   \<and> decimalValue ''25'' ''50'' = 51 / 2
   \<and> parseTransactionDetails toDouble (CHR 0xA0 # ''$-25.50 Joe'' @ [CHR 0x27] @ ''s '') =
       Some \<lparr>pt_amount = Number False (toDouble (51 / 2)), pt_name = ''Joes''\<rparr>
   \<and> amountFirst True ''Joes $-25.50'' = None
   \<and> parseTransactionDetails toDouble (CHR 0xA0 # ''Joe'' @ [CHR 0x27] @ ''s $-25.50 '') =
       Some \<lparr>pt_amount = Number False (toDouble (51 / 2)), pt_name = ''Joes''\<rparr>
   \<and> parseFloat toDouble ''-25.50'' = Number True (toDouble (51 / 2))"
    by simp
qed

text \<open>
  Claim C5 as stated fails, for every rounding. \<^verbatim>\<open>12 Joe's\<close> has the shape amount,
  name; the name returned is \<^verbatim>\<open>Joes\<close>, not the name of the line: the apostrophe is
  deleted before matching. \<^verbatim>\<open>7 Eleven 12.50\<close> has the shape name, amount with the name
  \<^verbatim>\<open>7 Eleven\<close>; the amount-first pattern wins and the result is 7 and
  \<^verbatim>\<open>Eleven 12.50\<close>. An amount followed by a name of 256 characters, and an amount
  followed by a name with a line break in it, return nothing.
\<close>

lemma example_parses:
  "parseTransactionDetails toDouble (''12 Joe'' @ [CHR 0x27] @ ''s'') =
     Some \<lparr>pt_amount = Number False (toDouble 12), pt_name = ''Joes''\<rparr>
   \<and> parseTransactionDetails toDouble ''7 Eleven 12.50'' =
     Some \<lparr>pt_amount = Number False (toDouble 7), pt_name = ''Eleven 12.50''\<rparr>
   \<and> parseTransactionDetails toDouble ''5 a\<newline>b'' = None"
  by (intro conjI; code_simp; simp?)

theorem parse_well_formed_counterexample:
  "\<forall>toDouble.
     parseTransactionDetails toDouble (''12 Joe'' @ [CHR 0x27] @ ''s'') =
       Some \<lparr>pt_amount = Number False (toDouble 12), pt_name = ''Joes''\<rparr>
   \<and> parseTransactionDetails toDouble ''7 Eleven 12.50'' =
       Some \<lparr>pt_amount = Number False (toDouble 7), pt_name = ''Eleven 12.50''\<rparr>
   \<and> parseTransactionDetails toDouble (''5 '' @ replicate 256 (CHR ''a'')) = None
   \<and> parseTransactionDetails toDouble ''5 a\<newline>b'' = None"
  using example_parses long_name_rejected by simp

text \<open>
  Claim C9, as the code has it. The second pattern is the first with an optional
  \<^verbatim>\<open>$\<close> in front: whenever the first pattern matches, the second matches with the same
  two groups, and the parser without the first pattern returns what the parser returns,
  on every input.
\<close>

theorem pattern_two_subsumes_pattern_one:
  "(amountFirst False s = Some m \<longrightarrow> amountFirst True s = Some m)
   \<and> parseCollapsedKeepSecond toDouble input = parseTransactionDetails toDouble input"
proof -
  have 1: "amountFirst False s = Some m \<longrightarrow> amountFirst True s = Some m"
    by (simp add: amountFirst_False_eq)
  have 2: "parseCollapsedKeepSecond toDouble input = parseTransactionDetails toDouble input"
    by (cases "validateInput input")
      (simp_all only: parseCollapsedKeepSecond_def parseTransactionDetails_def option.case
         tryPatterns_collapse)
  from 1 2 show ?thesis by simp
qed

theorem pattern_two_subsumes_pattern_one_witness:
  "\<forall>toDouble.
     amountFirst False ''100 Coffee'' = Some (''100'', ''Coffee'')
   \<and> amountFirst True ''100 Coffee'' = Some (''100'', ''Coffee'')
   \<and> parseCollapsedKeepSecond toDouble ''100 Coffee'' = parseTransactionDetails toDouble ''100 Coffee''"
proof
  fix toDouble :: "rat \<Rightarrow> magnitude"
  have h: "amountFirst False ''100 Coffee'' = Some (''100'', ''Coffee'')"
    by code_simp
  from pattern_two_subsumes_pattern_one
         [of "''100 Coffee''" "(''100'', ''Coffee'')" toDouble "''100 Coffee''"] h
  show "amountFirst False ''100 Coffee'' = Some (''100'', ''Coffee'')
   \<and> amountFirst True ''100 Coffee'' = Some (''100'', ''Coffee'')
   \<and> parseCollapsedKeepSecond toDouble ''100 Coffee'' = parseTransactionDetails toDouble ''100 Coffee''"
    by simp
qed

text \<open>
  Claim C9 as stated fails: on \<^verbatim>\<open>$5 x\<close> the second pattern matches and the first
  does not, and the parser without the second pattern returns nothing where the parser
  returns 5 and \<^verbatim>\<open>x\<close>, for every rounding.
\<close>

lemma example_dollar:
  "amountFirst True ''$5 x'' = Some (''$5'', ''x'')
   \<and> amountFirst False ''$5 x'' = None
   \<and> parseTransactionDetails toDouble ''$5 x'' =
       Some \<lparr>pt_amount = Number False (toDouble 5), pt_name = ''x''\<rparr>
   \<and> parseCollapsedKeepFirst toDouble ''$5 x'' = None"
  by (intro conjI; code_simp; simp?)

theorem pattern_one_subsumes_counterexample:
  "\<forall>toDouble.
     amountFirst True ''$5 x'' = Some (''$5'', ''x'')
   \<and> amountFirst False ''$5 x'' = None
   \<and> parseTransactionDetails toDouble ''$5 x'' =
       Some \<lparr>pt_amount = Number False (toDouble 5), pt_name = ''x''\<rparr>
   \<and> parseCollapsedKeepFirst toDouble ''$5 x'' = None"
  using example_dollar by simp


section \<open>Where the code departs from its specification\<close>

text \<open>
  Claim C1. The sweep that index.ts starts runs on the private map of the
  \<^verbatim>\<open>SessionManager\<close>, the engine keeps its sessions in the map of state.ts. On the
  example process the session of \<^verbatim>\<open>u\<close> was last active at 0; at 10000000 ms it is
  older than the timeout of 1800000 ms. A sweep tick leaves it in the engine's map,
  and the next message of \<^verbatim>\<open>u\<close> is handled in the old state \<^verbatim>\<open>SELECT_CATEGORY\<close>
  and submits a transaction. The same sweep does remove the session from a manager
  that holds it.
\<close>

theorem sweep_misses_engine_sessions:
  "10000000 - lastActivityAt exSelectCategory > sessionTimeoutMs (sessionManager exProcess)
   \<and> cleanupInterval (sessionManager exProcess)
   \<and> engineSessions (sweepTick exProcess 10000000) ''u'' = Some exSelectCategory
   \<and> map_option category_id
         (snd (snd (onMessage (sweepTick exProcess 10000000) exEnvOk ''u'' ''food'' 10000000))) =
       Some ''c-food''
   \<and> sm_sessions (clearExpiredSessions
         ((sessionManager exProcess)\<lparr>sm_sessions := [''u'' \<mapsto> exSelectCategory]\<rparr>) 10000000) ''u'' = None"
  by (simp add: exProcess_def sweepTick_def onMessage_def clearExpiredSessions_def
      startCleanupInterval_def SessionManager_new_def defaultSessionTimeoutMs_def
      engine_defs string_defs example_defs)

text \<open>
  Claim C2. The rendered list numbers the expense categories first: with the cache
  \<open>[exSalary, exFood]\<close> it shows \<^verbatim>\<open>1. Food\<close> and \<^verbatim>\<open>2. Salary\<close>. The handler
  indexes the cache in its stored order: the input \<^verbatim>\<open>1\<close> submits the id of Salary,
  the input \<^verbatim>\<open>food\<close> the id of Food.
\<close>

theorem listed_number_selects_other_category:
  \<open>formatCategoriesList (bot_categories exBot) =
     Uni 0x1F4C1 # str '' *Select a category:*\<newline>\<newline>*Expenses:*\<newline>1. Food\<newline>\<newline>*Income:*\<newline>2. Salary\<newline>\<newline>Reply with the number or type the category name.\<newline>\<newline>_Type "/back" to return to main menu._''
   \<and> map_option category_id
         (snd (snd (handleMessage exBot exEnvOk [''u'' \<mapsto> exSelectCategory] ''u'' ''1'' 9))) =
       Some ''c-salary''
   \<and> map_option category_id
         (snd (snd (handleMessage exBot exEnvOk [''u'' \<mapsto> exSelectCategory] ''u'' ''food'' 9))) =
       Some ''c-food''\<close>
  by (simp add: formatCategoriesList_def categoryLines_def showNat.simps enumerate_eq_zip
      fileFolder_def str_def engine_defs string_defs example_defs)

text \<open>
  Claim C3. The account handler resolves against the list the session stores: with
  the cache changed to \<open>[exBank]\<close>, the input \<^verbatim>\<open>1\<close> still selects Cash, the first
  account that was shown. The category handler does not. The session of
  \<open>exStaleSnapshot\<close> stores the category list that was shown,
  \<open>[exFood]\<close>; the cache of the bot is \<open>[exSalary, exFood]\<close>. The input \<^verbatim>\<open>1\<close> submits
  the id of Salary, the first entry of the cache, and the name \<^verbatim>\<open>salary\<close>, which is
  not in the stored list, is accepted: the category handler never reads the list the
  session stores, while the account handler does read \<^verbatim>\<open>session.accounts\<close>.
\<close>

theorem category_selection_reads_live_cache:
  "accounts exSelectAccount = Some [exCash, exBank]
   \<and> bot_accounts exBotChanged = [exBank]
   \<and> fst (snd (handleMessage exBotChanged exEnvOk [''u'' \<mapsto> exSelectAccount] ''u'' ''1'' 9)) ''u'' =
       Some (exSelectAccount\<lparr>state := ENTER_DETAILS, accountId := Some ''a-cash'',
                              lastActivityAt := 9\<rparr>)
   \<and> categories exStaleSnapshot = Some [exFood]
   \<and> bot_categories exBot = [exSalary, exFood]
   \<and> map_option category_id
         (snd (snd (handleMessage exBot exEnvOk [''u'' \<mapsto> exStaleSnapshot] ''u'' ''1'' 9))) =
       Some ''c-salary''
   \<and> map_option category_id
         (snd (snd (handleMessage exBot exEnvOk [''u'' \<mapsto> exStaleSnapshot] ''u'' ''salary'' 9))) =
       Some ''c-salary''"
  by (simp add: engine_defs string_defs example_defs)

end
